theory Spec2Isabelle
  imports Main "HOL-Library.Word" "HOL-Library.Signed_Division"
begin

unbundle bit_operations_syntax

section \<open>Machine types and C++ arithmetic\<close>

text \<open>
  The raster importer works on \<open>byte\<close>, \<open>uint\<close>, \<open>int\<close> and \<open>size_t\<close>.  Unsigned types are
  words, whose arithmetic wraps around as in C++.  The signed \<open>int\<close> is a 32-bit word
  read in two's complement (\<open>sint\<close>); its additions and subtractions wrap around as
  they do on the machine (C++ leaves the overflow undefined), its comparisons are the
  signed ones, and its division and remainder truncate towards zero and trap on a zero
  divisor and on \<open>INT_MIN / -1\<close>.
\<close>

type_synonym byte = "8 word"
type_synonym uint = "32 word"
type_synonym cint = "32 word"
type_synonym uint64 = "64 word"
type_synonym size_t = "64 word"
type_synonym TileIndex = "32 word"

datatype error = AssertionFailed | NotReached | DivisionByZero | IntegerOverflow | OutOfBounds

definition and_then :: "error + 'a \<Rightarrow> ('a \<Rightarrow> error + 'b) \<Rightarrow> error + 'b" where
  "and_then m f = (case m of Inl err \<Rightarrow> Inl err | Inr x \<Rightarrow> f x)"

definition INT_MIN :: cint where
  "INT_MIN = push_bit 31 1"

definition int_div :: "cint \<Rightarrow> cint \<Rightarrow> error + cint" where
  "int_div a b =
     (if b = 0 then Inl DivisionByZero
      else if a = INT_MIN \<and> b = - 1 then Inl IntegerOverflow
      else Inr (word_of_int (sint a sdiv sint b)))"

definition int_mod :: "cint \<Rightarrow> cint \<Rightarrow> error + cint" where
  "int_mod a b =
     (if b = 0 then Inl DivisionByZero
      else if a = INT_MIN \<and> b = - 1 then Inl IntegerOverflow
      else Inr (word_of_int (sint a smod sint b)))"

definition uint_div :: "uint \<Rightarrow> uint \<Rightarrow> error + uint" where
  "uint_div a b = (if b = 0 then Inl DivisionByZero else Inr (a div b))"

definition std_max :: "cint \<Rightarrow> cint \<Rightarrow> cint" where
  "std_max a b = (if a <s b then b else a)"

definition std_min :: "cint \<Rightarrow> cint \<Rightarrow> cint" where
  "std_min a b = (if b <s a then b else a)"

definition std_abs :: "cint \<Rightarrow> cint" where
  "std_abs a = (if a <s 0 then - a else a)"

section \<open>raster\_io.h: dimension limits\<close>

definition MAX_RASTER_SIDE_LENGTH_IN_PIXELS :: uint where
  "MAX_RASTER_SIDE_LENGTH_IN_PIXELS = 2 * push_bit 16 1"

definition MAX_RASTER_SIZE_PIXELS :: uint where
  "MAX_RASTER_SIZE_PIXELS = push_bit 20 256"

text \<open>
  \<open>size_t\<close> is taken at 64 bits.  The product is computed in \<open>uint64\<close>, where it can wrap
  around; the two limits are converted to the wider type for the comparisons.
\<close>

definition IsValidRasterDimension :: "size_t \<Rightarrow> size_t \<Rightarrow> bool" where
  "IsValidRasterDimension width height \<longleftrightarrow>
     (ucast width :: uint64) * ucast height \<le> ucast MAX_RASTER_SIZE_PIXELS \<and>
     width > 0 \<and> width \<le> ucast MAX_RASTER_SIDE_LENGTH_IN_PIXELS \<and>
     height > 0 \<and> height \<le> ucast MAX_RASTER_SIDE_LENGTH_IN_PIXELS"

section \<open>The world grid and the other collaborators\<close>

text \<open>
  Modelled from the spec: the tile kinds of tile\_type.h, which is not among the sources.
  The importer only tells "clear" and "tree-covered" cells (spec 4.3) from all the others.
\<close>

datatype TileType =
  MP_CLEAR | MP_RAILWAY | MP_ROAD | MP_HOUSE | MP_TREES | MP_STATION | MP_WATER
  | MP_VOID | MP_INDUSTRY | MP_TUNNELBRIDGE | MP_OBJECT

text \<open>
  Modelled from the spec: the ground kinds of clear\_map.h, which is not among the sources;
  they are the six that \<open>ReplaceGround\<close> switches over.
\<close>

datatype ClearGround =
  CLEAR_GRASS | CLEAR_ROUGH | CLEAR_ROCKS | CLEAR_FIELDS | CLEAR_SNOW | CLEAR_DESERT

text \<open>tree\_base.h\<close>

datatype TreeGround =
  TREE_GROUND_GRASS | TREE_GROUND_ROUGH | TREE_GROUND_SNOW_DESERT | TREE_GROUND_SHORE
  | TREE_GROUND_ROUGH_SNOW

type_synonym TreeType = uint

definition TREE_TEMPERATE :: TreeType where "TREE_TEMPERATE = 0x00"
definition TREE_SUB_ARCTIC :: TreeType where "TREE_SUB_ARCTIC = 0x0C"
definition TREE_RAINFOREST :: TreeType where "TREE_RAINFOREST = 0x14"
definition TREE_CACTUS :: TreeType where "TREE_CACTUS = 0x1B"
definition TREE_SUB_TROPICAL :: TreeType where "TREE_SUB_TROPICAL = 0x1C"
definition TREE_TOYLAND :: TreeType where "TREE_TOYLAND = 0x20"
definition TREE_INVALID :: TreeType where "TREE_INVALID = 0xFF"

definition TREE_COUNT_TEMPERATE :: uint where
  "TREE_COUNT_TEMPERATE = TREE_SUB_ARCTIC - TREE_TEMPERATE"
definition TREE_COUNT_SUB_ARCTIC :: uint where
  "TREE_COUNT_SUB_ARCTIC = TREE_RAINFOREST - TREE_SUB_ARCTIC"
definition TREE_COUNT_RAINFOREST :: uint where
  "TREE_COUNT_RAINFOREST = TREE_CACTUS - TREE_RAINFOREST"
definition TREE_COUNT_SUB_TROPICAL :: uint where
  "TREE_COUNT_SUB_TROPICAL = TREE_TOYLAND - TREE_SUB_TROPICAL"
definition TREE_COUNT_TOYLAND :: uint where
  "TREE_COUNT_TOYLAND = 9"

text \<open>
  Modelled from the spec: the enumerations of the other headers that are not among the
  sources (climate, rotation, climate zone, slope, owner, industry, message level,
  directory, file type and message text), with the members the importer names; the slopes,
  owners, directories and file types it does not name are kept apart by a number.
\<close>

datatype LandscapeType = LT_TEMPERATE | LT_ARCTIC | LT_TROPIC | LT_TOYLAND
datatype HeightmapRotation = HM_COUNTER_CLOCKWISE | HM_CLOCKWISE
datatype TropicZone = TROPICZONE_NORMAL | TROPICZONE_DESERT | TROPICZONE_RAINFOREST
datatype Slope = SLOPE_FLAT | SLOPE_OTHER nat
datatype Owner = OWNER_NONE | OWNER_WATER | OWNER_OTHER nat
datatype IndustryID = INVALID_INDUSTRY
datatype WarningLevel = WL_ERROR
datatype Subdirectory = GEOMAP_DIR | OTHER_DIR nat
datatype DetailedFileType = DFT_HEIGHTMAP_BMP | DFT_HEIGHTMAP_PNG | DFT_OTHER nat

datatype StringID =
  STR_ERROR_PNGMAP | STR_ERROR_PNGMAP_MISC | STR_ERROR_PNGMAP_IMAGE_TYPE
  | STR_ERROR_PNGMAP_FILE_NOT_FOUND | STR_ERROR_HEIGHTMAP_TOO_LARGE
  | STR_ERROR_BMPMAP | STR_ERROR_BMPMAP_IMAGE_TYPE

text \<open>raster\_io.h\<close>

datatype RasterDataType =
  RDT_HEIGHT | RDT_TERRAIN | RDT_FIELDS | RDT_WATER | RDT_TREES | RDT_SNOW | RDT_DESERT
  | RDT_TROPICS | RDT_INVALID

text \<open>
  Every call of the importer into a collaborator that has an effect there, with its
  arguments: the tile mutations of the grid, the draws from the random generator, the
  error messages, the release of the pixel buffer and the display notification.
\<close>

datatype call =
  SetClearGroundDensity TileIndex ClearGround uint
  | SetTreeGroundDensity TileIndex TreeGround uint
  | MakeClear TileIndex ClearGround uint
  | MakeField TileIndex uint IndustryID
  | MakeCanal TileIndex Owner uint
  | MakeRiver TileIndex uint
  | MakeSea TileIndex
  | MakeSnow TileIndex uint
  | SetTropicZone TileIndex TropicZone
  | PlantTreesOnTile TileIndex TreeType uint uint
  | CallRandom
  | CallRandomRange uint
  | ShowErrorMessage StringID StringID WarningLevel
  | Free "byte list option"
  | MarkWholeScreenDirty

fun is_tile_mutation :: "call \<Rightarrow> bool" where
  "is_tile_mutation CallRandom = False"
| "is_tile_mutation (CallRandomRange limit) = False"
| "is_tile_mutation (ShowErrorMessage a b l) = False"
| "is_tile_mutation (Free p) = False"
| "is_tile_mutation MarkWholeScreenDirty = False"
| "is_tile_mutation c = True"

fun is_ground_write :: "call \<Rightarrow> bool" where
  "is_ground_write (SetClearGroundDensity t gr d) = True"
| "is_ground_write (SetTreeGroundDensity t gr d) = True"
| "is_ground_write (MakeClear t gr d) = True"
| "is_ground_write c = False"

text \<open>
  What opening and decoding an image file delivers to \<open>ReadRasterFile\<close>.  The container
  formats are parsed by libpng and by the BMP reader, which are outside the sources (spec 1);
  the record holds the outcome of each of their steps and, for each offset of the
  buffer, the byte that \<open>ReadPNGRows\<close> or \<open>ReadBMPRows\<close> stores there.
\<close>

record raster_file =
  png_struct_ok :: bool
  png_info_ok :: bool
  png_channels :: nat
  png_bit_depth :: nat
  bmp_header_ok :: bool
  bmp_bitmap_ok :: bool
  image_width :: uint
  image_height :: uint
  image_byte :: "nat \<Rightarrow> byte"

text \<open>
  The tile grid \<open>'w\<close> and the state \<open>'r\<close> of the random generator are opaque.  The
  record gives the settings, the queries of the grid, the effect of a tile mutation on it,
  the two random primitives, the bit-field helper \<open>GB\<close> and the file system.  None of
  these functions is among the sources; the importer is verified for all of them.
\<close>

record ('w, 'r) env =
  heightmap_rotation :: HeightmapRotation
  landscape :: LandscapeType
  MapSizeX :: "'w \<Rightarrow> uint"
  MapSizeY :: "'w \<Rightarrow> uint"
  TileXY :: "uint \<Rightarrow> uint \<Rightarrow> TileIndex"
  IsInnerTile :: "'w \<Rightarrow> TileIndex \<Rightarrow> bool"
  GetTileType :: "'w \<Rightarrow> TileIndex \<Rightarrow> TileType"
  GetTileSlope :: "'w \<Rightarrow> TileIndex \<Rightarrow> Slope"
  IsHalftileSlope :: "Slope \<Rightarrow> bool"
  GetTileOwner :: "'w \<Rightarrow> TileIndex \<Rightarrow> Owner"
  IsTileFlat :: "'w \<Rightarrow> TileIndex \<Rightarrow> bool"
  TileHeight :: "'w \<Rightarrow> TileIndex \<Rightarrow> uint"
  IsSnowTile :: "'w \<Rightarrow> TileIndex \<Rightarrow> bool"
  GetTreeGround :: "'w \<Rightarrow> TileIndex \<Rightarrow> TreeGround"
  CanPlantTreesOnTile :: "'w \<Rightarrow> TileIndex \<Rightarrow> bool \<Rightarrow> bool"
  GetRandomTreeType :: "'w \<Rightarrow> TileIndex \<Rightarrow> uint \<Rightarrow> TreeType"
  GB :: "uint \<Rightarrow> nat \<Rightarrow> nat \<Rightarrow> uint"
  mutate :: "call \<Rightarrow> 'w \<Rightarrow> 'w"
  next_Random :: "'r \<Rightarrow> uint \<times> 'r"
  next_RandomRange :: "uint \<Rightarrow> 'r \<Rightarrow> uint \<times> 'r"
  FioFOpenFile :: "string \<Rightarrow> Subdirectory \<Rightarrow> raster_file option"

record ('w, 'r) state =
  world :: 'w
  random :: 'r
  calls :: "call list"

definition perform :: "('w, 'r) env \<Rightarrow> call \<Rightarrow> ('w, 'r) state \<Rightarrow> ('w, 'r) state" where
  "perform e c s = \<lparr>world = mutate e c (world s), random = random s, calls = calls s @ [c]\<rparr>"

definition emit :: "call \<Rightarrow> ('w, 'r) state \<Rightarrow> ('w, 'r) state" where
  "emit c s = \<lparr>world = world s, random = random s, calls = calls s @ [c]\<rparr>"

definition Random :: "('w, 'r) env \<Rightarrow> ('w, 'r) state \<Rightarrow> uint \<times> ('w, 'r) state" where
  "Random e s =
     (case next_Random e (random s) of
        (v, rs) \<Rightarrow> (v, \<lparr>world = world s, random = rs, calls = calls s @ [CallRandom]\<rparr>))"

definition RandomRange :: "('w, 'r) env \<Rightarrow> uint \<Rightarrow> ('w, 'r) state \<Rightarrow> uint \<times> ('w, 'r) state" where
  "RandomRange e limit s =
     (case next_RandomRange e limit (random s) of
        (v, rs) \<Rightarrow>
          (v, \<lparr>world = world s, random = rs, calls = calls s @ [CallRandomRange limit]\<rparr>))"

section \<open>raster\_import.cpp\<close>

definition LOWER_CUTOFF :: byte where "LOWER_CUTOFF = 0x0f"
definition UPPER_CUTOFF :: byte where "UPPER_CUTOFF = 0xf0"

type_synonym ('w, 'r) TileRasterCallback =
  "byte \<Rightarrow> byte \<Rightarrow> byte \<Rightarrow> TileIndex \<Rightarrow> ('w, 'r) state \<Rightarrow> error + ('w, 'r) state"

subsection \<open>ReplaceGround\<close>

definition ReplaceGround ::
  "('w, 'r) env \<Rightarrow> TileIndex \<Rightarrow> ClearGround \<Rightarrow> uint \<Rightarrow> ('w, 'r) state \<Rightarrow> ('w, 'r) state" where
  "ReplaceGround e tile ground density s =
     (let current = GetTileType e (world s) tile in
      if current = MP_CLEAR then perform e (SetClearGroundDensity tile ground density) s
      else if current = MP_TREES then
        (case ground of
           CLEAR_GRASS \<Rightarrow> perform e (SetTreeGroundDensity tile TREE_GROUND_GRASS density) s
         | CLEAR_ROUGH \<Rightarrow> perform e (SetTreeGroundDensity tile TREE_GROUND_ROUGH density) s
         | CLEAR_ROCKS \<Rightarrow> perform e (MakeClear tile ground density) s
         | CLEAR_FIELDS \<Rightarrow> perform e (MakeClear tile ground density) s
         | CLEAR_SNOW \<Rightarrow> perform e (SetTreeGroundDensity tile TREE_GROUND_SNOW_DESERT density) s
         | CLEAR_DESERT \<Rightarrow> perform e (SetTreeGroundDensity tile TREE_GROUND_SNOW_DESERT density) s)
      else s)"

subsection \<open>SampleQuantizedGradient\<close>

text \<open>
  The two assertions come first.  The draw is compared with the remainder as unsigned
  values, since \<open>rand\<close> is a \<open>uint\<close>.
\<close>

definition SampleQuantizedGradient ::
  "('w, 'r) env \<Rightarrow> cint \<Rightarrow> cint \<Rightarrow> cint \<Rightarrow> cint \<Rightarrow> ('w, 'r) state \<Rightarrow> error + (cint \<times> ('w, 'r) state)" where
  "SampleQuantizedGradient e sample max_level start end s =
     (if \<not> 0 <s max_level then Inl AssertionFailed
      else if start = end then Inl AssertionFailed
      else
        and_then (int_div (end - start) max_level) (\<lambda>x_delta.
          let start' = (if end <s start then end else start);
              x = std_max (sample - start') 0
          in case RandomRange e (std_abs (x_delta - 2)) s of (v, s') \<Rightarrow>
            let rand = v + 1 in
            and_then (int_mod x x_delta) (\<lambda>m.
              let y_jitter = (if rand < m then 1 else 0) in
              and_then (int_div x (std_abs x_delta)) (\<lambda>y_delta.
                let y = std_min (std_max (y_delta + y_jitter) 0) max_level in
                Inr (if x_delta <s 0 then max_level - y else y, s')))))"

subsection \<open>The classifiers\<close>

text \<open>
  A channel value is a \<open>byte\<close>, widened to \<open>int\<close> where the sampler takes it.  The level
  the sampler returns is stored in a \<open>uint\<close> by \<open>ApplyTerrain\<close> and \<open>ApplyTrees\<close>, and kept
  as an \<open>int\<close> by the others; the default density of \<open>ReplaceGround\<close> is 3.
\<close>

definition ApplyTerrain :: "('w, 'r) env \<Rightarrow> ('w, 'r) TileRasterCallback" where
  "ApplyTerrain e r g b tile s =
     (let current = GetTileType e (world s) tile in
      if current \<noteq> MP_CLEAR \<and> current \<noteq> MP_TREES then Inr s
      else
        and_then
          (if r \<ge> 0x10 then
             and_then (SampleQuantizedGradient e (ucast r) 3 (ucast UPPER_CUTOFF) (ucast LOWER_CUTOFF) s)
               (\<lambda>(density, s1).
                  Inr (if density < 3 then ReplaceGround e tile CLEAR_GRASS density s1 else s1))
           else Inr s)
          (\<lambda>s1.
        and_then
          (if g \<ge> 0x10 then
             and_then (SampleQuantizedGradient e (ucast g) 1 (ucast LOWER_CUTOFF) (ucast UPPER_CUTOFF) s1)
               (\<lambda>(level, s2).
                  Inr (if level \<noteq> 0 then ReplaceGround e tile CLEAR_ROUGH 3 s2 else s2))
           else Inr s1)
          (\<lambda>s2.
          if b \<ge> 0x10 then
            and_then (SampleQuantizedGradient e (ucast b) 1 (ucast LOWER_CUTOFF) (ucast UPPER_CUTOFF) s2)
              (\<lambda>(level, s3).
                 Inr (if level \<noteq> 0 then ReplaceGround e tile CLEAR_ROCKS 3 s3 else s3))
          else Inr s2)))"

text \<open>
  \<open>(r >> 4) - 1\<close> and its remainder by 9 are computed in \<open>int\<close>; the result is stored in
  the \<open>uint\<close> \<open>field\<close>.
\<close>

definition ApplyFields :: "('w, 'r) env \<Rightarrow> ('w, 'r) TileRasterCallback" where
  "ApplyFields e r g b tile s =
     (if r < LOWER_CUTOFF then Inr s
      else
        and_then (int_mod (ucast (drop_bit 4 r) - 1) 9) (\<lambda>field.
          and_then (SampleQuantizedGradient e (ucast g) 1 (ucast LOWER_CUTOFF) (ucast UPPER_CUTOFF) s)
            (\<lambda>(level, s1).
               Inr (if level \<noteq> 0 then perform e (MakeField tile field INVALID_INDUSTRY) s1
                    else s1))))"

definition ApplyWater :: "('w, 'r) env \<Rightarrow> ('w, 'r) TileRasterCallback" where
  "ApplyWater e r g b tile s =
     (if r \<ge> UPPER_CUTOFF then
        (let slope = GetTileSlope e (world s) tile in
         if slope = SLOPE_FLAT then
           (let owner = GetTileOwner e (world s) tile in
            if owner \<noteq> OWNER_WATER then
              (case Random e s of (rnd, s1) \<Rightarrow> Inr (perform e (MakeCanal tile owner rnd) s1))
            else
              (case Random e s of (rnd, s1) \<Rightarrow> Inr (perform e (MakeCanal tile OWNER_NONE rnd) s1)))
         else if g \<ge> UPPER_CUTOFF \<and> IsHalftileSlope e slope then
           (case Random e s of (rnd, s1) \<Rightarrow> Inr (perform e (MakeRiver tile rnd) s1))
         else Inr s)
      else if g \<ge> UPPER_CUTOFF then
        (let slope = GetTileSlope e (world s) tile in
         if slope = SLOPE_FLAT \<or> IsHalftileSlope e slope then
           (case Random e s of (rnd, s1) \<Rightarrow> Inr (perform e (MakeRiver tile rnd) s1))
         else Inr s)
      else if b \<ge> UPPER_CUTOFF then
        (if IsTileFlat e (world s) tile \<and> TileHeight e (world s) tile = 0 then
           Inr (perform e (MakeSea tile) s)
         else Inr s)
      else Inr s)"

text \<open>
  \<open>(val >> 4) - 1\<close> is an \<open>int\<close>; the species counts are \<open>uint\<close>, so the remainder and the
  sum are unsigned.
\<close>

definition TreeTypeLookup :: "('w, 'r) env \<Rightarrow> byte \<Rightarrow> TreeType" where
  "TreeTypeLookup e val =
     (if val < 0x10 then TREE_INVALID
      else
        (case landscape e of
           LT_TEMPERATE \<Rightarrow> TREE_TEMPERATE + (ucast (drop_bit 4 val) - 1) mod TREE_COUNT_TEMPERATE
         | LT_ARCTIC \<Rightarrow> TREE_SUB_ARCTIC + (ucast (drop_bit 4 val) - 1) mod TREE_COUNT_SUB_ARCTIC
         | LT_TROPIC \<Rightarrow> TREE_RAINFOREST + (ucast (drop_bit 4 val) - 1) mod TREE_COUNT_SUB_TROPICAL
         | LT_TOYLAND \<Rightarrow> TREE_TOYLAND + (ucast (drop_bit 4 val) - 1) mod TREE_COUNT_TOYLAND))"

definition ApplyTrees :: "('w, 'r) env \<Rightarrow> ('w, 'r) TileRasterCallback" where
  "ApplyTrees e r g b tile s =
     and_then
       (if r < 0x10 then Inr (3, s)
        else SampleQuantizedGradient e (ucast r) 6 (ucast LOWER_CUTOFF) (ucast UPPER_CUTOFF) s)
       (\<lambda>(growth, s1).
     and_then (SampleQuantizedGradient e (ucast g) (3 + 1) (ucast LOWER_CUTOFF) (ucast UPPER_CUTOFF) s1)
       (\<lambda>(level, s2).
          let density = level - 1 in
          if density <s 0 then Inr s2
          else
            (case (if b < 0x10 then
                     (case Random e s2 of (rnd, s3) \<Rightarrow>
                        (GetRandomTreeType e (world s3) tile (GB e rnd 24 8), s3))
                   else (TreeTypeLookup e b, s2)) of
               (tree, s3) \<Rightarrow>
                 if tree = TREE_INVALID then Inr s3
                 else if CanPlantTreesOnTile e (world s3) tile True then
                   Inr (perform e (PlantTreesOnTile tile tree density growth) s3)
                 else Inr s3)))"

definition ApplySnow :: "('w, 'r) env \<Rightarrow> ('w, 'r) TileRasterCallback" where
  "ApplySnow e r g b tile s =
     and_then (SampleQuantizedGradient e (ucast b) (3 + 1) (ucast LOWER_CUTOFF) (ucast UPPER_CUTOFF) s)
       (\<lambda>(level, s1).
          let density = level - 1 in
          if density <s 0 then Inr s1
          else
            (let type = GetTileType e (world s1) tile in
             if type = MP_CLEAR then
               (if IsSnowTile e (world s1) tile then
                  Inr (perform e (SetClearGroundDensity tile CLEAR_SNOW density) s1)
                else Inr (perform e (MakeSnow tile density) s1))
             else if type = MP_TREES then
               (case GetTreeGround e (world s1) tile of
                  TREE_GROUND_GRASS \<Rightarrow>
                    Inr (perform e (SetTreeGroundDensity tile TREE_GROUND_SNOW_DESERT density) s1)
                | TREE_GROUND_SNOW_DESERT \<Rightarrow>
                    Inr (perform e (SetTreeGroundDensity tile TREE_GROUND_SNOW_DESERT density) s1)
                | TREE_GROUND_ROUGH \<Rightarrow>
                    Inr (perform e (SetTreeGroundDensity tile TREE_GROUND_ROUGH_SNOW density) s1)
                | TREE_GROUND_ROUGH_SNOW \<Rightarrow>
                    Inr (perform e (SetTreeGroundDensity tile TREE_GROUND_ROUGH_SNOW density) s1)
                | TREE_GROUND_SHORE \<Rightarrow> Inr s1)
             else Inr s1))"

definition ApplyDesert :: "('w, 'r) env \<Rightarrow> ('w, 'r) TileRasterCallback" where
  "ApplyDesert e r g b tile s =
     and_then (SampleQuantizedGradient e (ucast r) (1 + 1) (ucast LOWER_CUTOFF) (ucast UPPER_CUTOFF) s)
       (\<lambda>(level, s1).
          let density = level * 2 - 1 in
          if density <s 0 then Inr s1
          else
            (let s2 = ReplaceGround e tile CLEAR_DESERT density s1 in
             if g > UPPER_CUTOFF then Inr (perform e (SetTropicZone tile TROPICZONE_DESERT) s2)
             else Inr s2))"

definition ApplyTropics :: "('w, 'r) env \<Rightarrow> ('w, 'r) TileRasterCallback" where
  "ApplyTropics e r g b tile s =
     (if r > UPPER_CUTOFF then Inr (perform e (SetTropicZone tile TROPICZONE_DESERT) s)
      else if g > UPPER_CUTOFF then Inr (perform e (SetTropicZone tile TROPICZONE_RAINFOREST) s)
      else if b > UPPER_CUTOFF then Inr (perform e (SetTropicZone tile TROPICZONE_NORMAL) s)
      else Inr s)"

subsection \<open>ApplyRasterToMap\<close>

definition num_div :: uint where
  "num_div = 16384"

text \<open>
  Lines 62 to 83: the map extents for the rotation, then the scale and the padding, all in
  \<open>uint\<close>; \<open>mw\<close>, \<open>mh\<close> and \<open>scale\<close> are the locals \<open>map_width\<close>, \<open>map_height\<close> and
  \<open>raster_scale\<close>, which the record returns under their names.  A division by zero is an
  error of the model.
\<close>

record projection =
  map_width :: uint
  map_height :: uint
  map_row_pad :: uint
  map_col_pad :: uint
  raster_scale :: uint

definition raster_projection ::
  "HeightmapRotation \<Rightarrow> uint \<Rightarrow> uint \<Rightarrow> uint \<Rightarrow> uint \<Rightarrow> error + projection" where
  "raster_projection rotation size_x size_y raster_width raster_height =
     (case (case rotation of
              HM_COUNTER_CLOCKWISE \<Rightarrow> (size_x, size_y)
            | HM_CLOCKWISE \<Rightarrow> (size_y, size_x)) of
        (mw, mh) \<Rightarrow>
          and_then (uint_div (raster_width * num_div) raster_height) (\<lambda>raster_aspect.
          and_then (uint_div (mw * num_div) mh) (\<lambda>map_aspect.
            if raster_aspect > map_aspect then
              and_then (uint_div (mw * num_div) raster_width) (\<lambda>scale.
                Inr \<lparr>map_width = mw, map_height = mh,
                     map_row_pad = (1 + mh - (raster_height * scale) div num_div) div 2,
                     map_col_pad = 0, raster_scale = scale\<rparr>)
            else
              and_then (uint_div (mh * num_div) raster_height) (\<lambda>scale.
                Inr \<lparr>map_width = mw, map_height = mh,
                     map_row_pad = 0,
                     map_col_pad = (1 + mw - (raster_width * scale) div num_div) div 2,
                     raster_scale = scale\<rparr>))))"

text \<open>Lines 95 to 104: the source row and column of a map cell.\<close>

definition source_row :: "projection \<Rightarrow> uint \<Rightarrow> error + uint" where
  "source_row pj map_row = uint_div ((map_row - map_row_pad pj) * num_div) (raster_scale pj)"

definition source_col :: "HeightmapRotation \<Rightarrow> projection \<Rightarrow> uint \<Rightarrow> error + uint" where
  "source_col rotation pj map_col =
     (case rotation of
        HM_COUNTER_CLOCKWISE \<Rightarrow>
          uint_div ((map_width pj - 1 - map_col - map_col_pad pj) * num_div) (raster_scale pj)
      | HM_CLOCKWISE \<Rightarrow>
          uint_div ((map_col - map_col_pad pj) * num_div) (raster_scale pj))"

text \<open>
  Lines 106 to 115: the two assertions, the three reads from the buffer (a read past its
  end is an error of the model) and the callback on an inner tile.
\<close>

definition read_byte :: "byte list \<Rightarrow> uint \<Rightarrow> error + byte" where
  "read_byte raster i = (if unat i < length raster then Inr (raster ! unat i) else Inl OutOfBounds)"

definition sample_tile ::
  "('w, 'r) env \<Rightarrow> uint \<Rightarrow> uint \<Rightarrow> byte list \<Rightarrow> ('w, 'r) TileRasterCallback \<Rightarrow> TileIndex \<Rightarrow> uint \<Rightarrow> uint
     \<Rightarrow> ('w, 'r) state \<Rightarrow> error + ('w, 'r) state" where
  "sample_tile e raster_width raster_height raster proc tile raster_row raster_col s =
     (if \<not> raster_row < raster_height then Inl AssertionFailed
      else if \<not> raster_col < raster_width then Inl AssertionFailed
      else
        and_then (read_byte raster ((raster_row * raster_width + raster_col) * 3)) (\<lambda>r.
        and_then (read_byte raster ((raster_row * raster_width + raster_col) * 3 + 1)) (\<lambda>g.
        and_then (read_byte raster ((raster_row * raster_width + raster_col) * 3 + 2)) (\<lambda>b.
          if IsInnerTile e (world s) tile then proc r g b tile s else Inr s))))"

text \<open>Lines 88 to 115: the body of the inner loop.\<close>

definition visit_tile ::
  "('w, 'r) env \<Rightarrow> projection \<Rightarrow> uint \<Rightarrow> uint \<Rightarrow> byte list \<Rightarrow> ('w, 'r) TileRasterCallback \<Rightarrow> uint \<Rightarrow> uint
     \<Rightarrow> ('w, 'r) state \<Rightarrow> error + ('w, 'r) state" where
  "visit_tile e pj raster_width raster_height raster proc map_row map_col s =
     (let tile = (case heightmap_rotation e of
                    HM_COUNTER_CLOCKWISE \<Rightarrow> TileXY e map_col map_row
                  | HM_CLOCKWISE \<Rightarrow> TileXY e map_row map_col)
      in
        and_then (source_row pj map_row) (\<lambda>raster_row.
        and_then (source_col (heightmap_rotation e) pj map_col) (\<lambda>raster_col.
          sample_tile e raster_width raster_height raster proc tile raster_row raster_col s)))"

text \<open>
  \<open>for (i = first; i < bound; i++) body\<close> over \<open>uint\<close>, stopped by the first error.
\<close>

function for_loop :: "uint \<Rightarrow> uint \<Rightarrow> (uint \<Rightarrow> 's \<Rightarrow> error + 's) \<Rightarrow> 's \<Rightarrow> error + 's" where
  "for_loop i bound body s =
     (if i < bound then
        (case body i s of Inl err \<Rightarrow> Inl err | Inr s' \<Rightarrow> for_loop (i + 1) bound body s')
      else Inr s)"
  by pat_completeness auto
termination
proof (relation "measure (\<lambda>(i, bound, body, s). unat bound - unat i)")
  show "wf (measure (\<lambda>(i, bound, body, s). unat bound - unat i))"
    by simp
next
  fix i bound :: uint and body :: "uint \<Rightarrow> 's \<Rightarrow> error + 's" and s x2 :: 's
  assume less: "i < bound"
  then have "unat i < unat bound"
    by (simp add: word_less_nat_alt)
  moreover have "unat bound < 2 ^ 32"
    using unsigned_less [of bound, where ?'a = nat] by simp
  ultimately have "unat i + 1 < 2 ^ 32"
    by simp
  then have "unat (i + 1) = unat i + 1"
    by (simp add: unat_word_ariths)
  with \<open>unat i < unat bound\<close>
  show "((i + 1, bound, body, x2), (i, bound, body, s))
      \<in> measure (\<lambda>(i, bound, body, s). unat bound - unat i)"
    by simp
qed

definition ApplyRasterToMap ::
  "('w, 'r) env \<Rightarrow> uint \<Rightarrow> uint \<Rightarrow> byte list \<Rightarrow> ('w, 'r) TileRasterCallback \<Rightarrow> ('w, 'r) state \<Rightarrow> error + ('w, 'r) state" where
  "ApplyRasterToMap e raster_width raster_height raster proc s =
     and_then
       (raster_projection (heightmap_rotation e) (MapSizeX e (world s)) (MapSizeY e (world s))
          raster_width raster_height)
       (\<lambda>pj.
          for_loop (map_row_pad pj) (map_height pj - map_row_pad pj)
            (\<lambda>map_row.
               for_loop (map_col_pad pj) (map_width pj - map_col_pad pj)
                 (\<lambda>map_col. visit_tile e pj raster_width raster_height raster proc map_row map_col))
            s)"

section \<open>raster\_io.cpp: the raster source\<close>

text \<open>
  The three out-parameters are written on success only, so a reader returns them as an
  optional triple: \<open>None\<close> is the result \<open>false\<close>.  \<open>want_raster\<close> says that the
  \<open>raster\<close> argument is not \<open>nullptr\<close>; the buffer then has \<open>width * height * 3\<close> bytes.
\<close>

definition pixel_buffer :: "raster_file \<Rightarrow> byte list" where
  "pixel_buffer f = map (image_byte f) [0 ..< unat (image_width f) * unat (image_height f) * 3]"

definition ReadRasterPNG ::
  "raster_file \<Rightarrow> bool \<Rightarrow> ('w, 'r) state \<Rightarrow> (uint \<times> uint \<times> byte list option) option \<times> ('w, 'r) state" where
  "ReadRasterPNG f want_raster s =
     (if \<not> png_struct_ok f then
        (None, emit (ShowErrorMessage STR_ERROR_PNGMAP STR_ERROR_PNGMAP_MISC WL_ERROR) s)
      else if \<not> png_info_ok f then
        (None, emit (ShowErrorMessage STR_ERROR_PNGMAP STR_ERROR_PNGMAP_MISC WL_ERROR) s)
      else if png_channels f \<noteq> 1 \<and> png_channels f \<noteq> 3 \<and> png_bit_depth f \<noteq> 8 then
        (None, emit (ShowErrorMessage STR_ERROR_PNGMAP STR_ERROR_PNGMAP_IMAGE_TYPE WL_ERROR) s)
      else if \<not> IsValidRasterDimension (ucast (image_width f)) (ucast (image_height f)) then
        (None, emit (ShowErrorMessage STR_ERROR_PNGMAP STR_ERROR_HEIGHTMAP_TOO_LARGE WL_ERROR) s)
      else
        (Some (image_width f, image_height f, if want_raster then Some (pixel_buffer f) else None), s))"

definition ReadRasterBMP ::
  "raster_file \<Rightarrow> bool \<Rightarrow> ('w, 'r) state \<Rightarrow> (uint \<times> uint \<times> byte list option) option \<times> ('w, 'r) state" where
  "ReadRasterBMP f want_raster s =
     (if \<not> bmp_header_ok f then
        (None, emit (ShowErrorMessage STR_ERROR_BMPMAP STR_ERROR_BMPMAP_IMAGE_TYPE WL_ERROR) s)
      else if \<not> IsValidRasterDimension (ucast (image_width f)) (ucast (image_height f)) then
        (None, emit (ShowErrorMessage STR_ERROR_BMPMAP STR_ERROR_HEIGHTMAP_TOO_LARGE WL_ERROR) s)
      else if want_raster then
        (if \<not> bmp_bitmap_ok f then
           (None, emit (ShowErrorMessage STR_ERROR_BMPMAP STR_ERROR_BMPMAP_IMAGE_TYPE WL_ERROR) s)
         else (Some (image_width f, image_height f, Some (pixel_buffer f)), s))
      else (Some (image_width f, image_height f, None), s))"

definition ReadRasterFile ::
  "('w, 'r) env \<Rightarrow> DetailedFileType \<Rightarrow> string \<Rightarrow> Subdirectory \<Rightarrow> bool \<Rightarrow> ('w, 'r) state
     \<Rightarrow> error + ((uint \<times> uint \<times> byte list option) option \<times> ('w, 'r) state)" where
  "ReadRasterFile e dft filename subdir want_raster s =
     (let file = FioFOpenFile e filename subdir in
      case dft of
        DFT_HEIGHTMAP_PNG \<Rightarrow>
          (case file of
             None \<Rightarrow>
               Inr (None,
                 emit (ShowErrorMessage STR_ERROR_PNGMAP STR_ERROR_PNGMAP_FILE_NOT_FOUND WL_ERROR) s)
           | Some f \<Rightarrow> Inr (ReadRasterPNG f want_raster s))
      | DFT_HEIGHTMAP_BMP \<Rightarrow>
          (case file of
             None \<Rightarrow>
               Inr (None,
                 emit (ShowErrorMessage STR_ERROR_PNGMAP STR_ERROR_PNGMAP_FILE_NOT_FOUND WL_ERROR) s)
           | Some f \<Rightarrow> Inr (ReadRasterBMP f want_raster s))
      | DFT_OTHER n \<Rightarrow> Inl NotReached)"

section \<open>raster\_import.cpp: LoadRaster\<close>

text \<open>
  \<open>LoadRaster\<close> passes the address of its local \<open>raster\<close>, which is \<open>nullptr\<close> until the
  reader stores a buffer there.  Nothing can be read through \<open>nullptr\<close>.
\<close>

definition bytes_at :: "byte list option \<Rightarrow> byte list" where
  "bytes_at p = (case p of None \<Rightarrow> [] | Some bs \<Rightarrow> bs)"

definition LoadRaster ::
  "('w, 'r) env \<Rightarrow> DetailedFileType \<Rightarrow> RasterDataType \<Rightarrow> string \<Rightarrow> Subdirectory \<Rightarrow> ('w, 'r) state
     \<Rightarrow> error + ('w, 'r) state" where
  "LoadRaster e dft rdt filename subdir s =
     and_then (ReadRasterFile e dft filename subdir True s) (\<lambda>(res, s1).
       case res of
         None \<Rightarrow> Inr (emit (Free None) s1)
       | Some (x, y, raster) \<Rightarrow>
           and_then
             (case rdt of
                RDT_TERRAIN \<Rightarrow> ApplyRasterToMap e x y (bytes_at raster) (ApplyTerrain e) s1
              | RDT_FIELDS \<Rightarrow> ApplyRasterToMap e x y (bytes_at raster) (ApplyFields e) s1
              | RDT_WATER \<Rightarrow> ApplyRasterToMap e x y (bytes_at raster) (ApplyWater e) s1
              | RDT_TREES \<Rightarrow> ApplyRasterToMap e x y (bytes_at raster) (ApplyTrees e) s1
              | RDT_SNOW \<Rightarrow> ApplyRasterToMap e x y (bytes_at raster) (ApplySnow e) s1
              | RDT_DESERT \<Rightarrow> ApplyRasterToMap e x y (bytes_at raster) (ApplyDesert e) s1
              | RDT_TROPICS \<Rightarrow> ApplyRasterToMap e x y (bytes_at raster) (ApplyTropics e) s1
              | RDT_HEIGHT \<Rightarrow> Inl NotReached
              | RDT_INVALID \<Rightarrow> Inl NotReached)
             (\<lambda>s2. Inr (emit MarkWholeScreenDirty (emit (Free raster) s2))))"


section \<open>Observing the calls\<close>

text \<open>The calls made between two states, and tests on single calls.\<close>

definition new_calls :: "('w, 'r) state \<Rightarrow> ('w, 'r) state \<Rightarrow> call list" where
  "new_calls s s' = drop (length (calls s)) (calls s')"

fun is_MakeCanal :: "call \<Rightarrow> bool" where
  "is_MakeCanal (MakeCanal t ow rnd) = True"
| "is_MakeCanal c = False"

fun is_MakeRiver :: "call \<Rightarrow> bool" where
  "is_MakeRiver (MakeRiver t rnd) = True"
| "is_MakeRiver c = False"

fun is_MakeSea :: "call \<Rightarrow> bool" where
  "is_MakeSea (MakeSea t) = True"
| "is_MakeSea c = False"

fun is_MakeField :: "call \<Rightarrow> bool" where
  "is_MakeField (MakeField t field ind) = True"
| "is_MakeField c = False"

fun random_range_limits :: "call list \<Rightarrow> uint list" where
  "random_range_limits [] = []"
| "random_range_limits (CallRandomRange limit # cs) = limit # random_range_limits cs"
| "random_range_limits (c # cs) = random_range_limits cs"

text \<open>
  The species group of a climate as tree\_base.h documents it: each \<open>TreeType\<close> constant
  is the start of the tree list of a landscape, and the \<open>TREE_COUNT\<close> constant of the same
  name is the number of tree types of that list.
\<close>

fun species_base :: "LandscapeType \<Rightarrow> TreeType" where
  "species_base LT_TEMPERATE = TREE_TEMPERATE"
| "species_base LT_ARCTIC = TREE_SUB_ARCTIC"
| "species_base LT_TROPIC = TREE_RAINFOREST"
| "species_base LT_TOYLAND = TREE_TOYLAND"

fun species_count :: "LandscapeType \<Rightarrow> uint" where
  "species_count LT_TEMPERATE = TREE_COUNT_TEMPERATE"
| "species_count LT_ARCTIC = TREE_COUNT_SUB_ARCTIC"
| "species_count LT_TROPIC = TREE_COUNT_RAINFOREST"
| "species_count LT_TOYLAND = TREE_COUNT_TOYLAND"

text \<open>
  The gradients \<open>(max_level, start, end)\<close> that the classifiers sample, and for a gradient
  the bound that \<open>SampleQuantizedGradient\<close> passes to \<open>RandomRange\<close>.
\<close>

definition classifier_gradients :: "(cint \<times> cint \<times> cint) list" where
  "classifier_gradients =
     [(3, ucast UPPER_CUTOFF, ucast LOWER_CUTOFF),
      (1, ucast LOWER_CUTOFF, ucast UPPER_CUTOFF),
      (6, ucast LOWER_CUTOFF, ucast UPPER_CUTOFF),
      (3 + 1, ucast LOWER_CUTOFF, ucast UPPER_CUTOFF),
      (1 + 1, ucast LOWER_CUTOFF, ucast UPPER_CUTOFF)]"

fun jitter_limit :: "cint \<times> cint \<times> cint \<Rightarrow> uint" where
  "jitter_limit (max_level, start, end) =
     (case int_div (end - start) max_level of
        Inl err \<Rightarrow> 0
      | Inr x_delta \<Rightarrow> std_abs (x_delta - 2))"

text \<open>
  A run from \<open>s\<close> to \<open>s'\<close> only adds calls, and every bound it passes to \<open>RandomRange\<close> is
  in \<open>L\<close>.
\<close>

definition draws_within :: "uint set \<Rightarrow> ('w, 'r) state \<Rightarrow> ('w, 'r) state \<Rightarrow> bool" where
  "draws_within L s s' \<longleftrightarrow>
     take (length (calls s)) (calls s') = calls s \<and>
     set (random_range_limits (new_calls s s')) \<subseteq> L"

section \<open>The call sites of the sampler\<close>

text \<open>
  To observe the arguments at the call sites of \<open>SampleQuantizedGradient\<close>, each of the
  five classifiers that sample is written a second time with the function that it calls
  there as a parameter \<open>smp\<close>: the text is that of the classifier, with
  \<open>SampleQuantizedGradient e\<close> replaced by \<open>smp\<close> and nothing else changed.
  \<open>ApplyWater\<close> and \<open>ApplyTropics\<close> have no such call site.
\<close>

type_synonym ('w, 'r) sampler =
  "cint \<Rightarrow> cint \<Rightarrow> cint \<Rightarrow> cint \<Rightarrow> ('w, 'r) state \<Rightarrow> error + (cint \<times> ('w, 'r) state)"

definition ApplyTerrain_with ::
  "('w, 'r) sampler \<Rightarrow> ('w, 'r) env \<Rightarrow> ('w, 'r) TileRasterCallback" where
  "ApplyTerrain_with smp e r g b tile s =
     (let current = GetTileType e (world s) tile in
      if current \<noteq> MP_CLEAR \<and> current \<noteq> MP_TREES then Inr s
      else
        and_then
          (if r \<ge> 0x10 then
             and_then (smp (ucast r) 3 (ucast UPPER_CUTOFF) (ucast LOWER_CUTOFF) s)
               (\<lambda>(density, s1).
                  Inr (if density < 3 then ReplaceGround e tile CLEAR_GRASS density s1 else s1))
           else Inr s)
          (\<lambda>s1.
        and_then
          (if g \<ge> 0x10 then
             and_then (smp (ucast g) 1 (ucast LOWER_CUTOFF) (ucast UPPER_CUTOFF) s1)
               (\<lambda>(level, s2).
                  Inr (if level \<noteq> 0 then ReplaceGround e tile CLEAR_ROUGH 3 s2 else s2))
           else Inr s1)
          (\<lambda>s2.
          if b \<ge> 0x10 then
            and_then (smp (ucast b) 1 (ucast LOWER_CUTOFF) (ucast UPPER_CUTOFF) s2)
              (\<lambda>(level, s3).
                 Inr (if level \<noteq> 0 then ReplaceGround e tile CLEAR_ROCKS 3 s3 else s3))
          else Inr s2)))"

definition ApplyFields_with ::
  "('w, 'r) sampler \<Rightarrow> ('w, 'r) env \<Rightarrow> ('w, 'r) TileRasterCallback" where
  "ApplyFields_with smp e r g b tile s =
     (if r < LOWER_CUTOFF then Inr s
      else
        and_then (int_mod (ucast (drop_bit 4 r) - 1) 9) (\<lambda>field.
          and_then (smp (ucast g) 1 (ucast LOWER_CUTOFF) (ucast UPPER_CUTOFF) s)
            (\<lambda>(level, s1).
               Inr (if level \<noteq> 0 then perform e (MakeField tile field INVALID_INDUSTRY) s1
                    else s1))))"

definition ApplyTrees_with ::
  "('w, 'r) sampler \<Rightarrow> ('w, 'r) env \<Rightarrow> ('w, 'r) TileRasterCallback" where
  "ApplyTrees_with smp e r g b tile s =
     and_then
       (if r < 0x10 then Inr (3, s)
        else smp (ucast r) 6 (ucast LOWER_CUTOFF) (ucast UPPER_CUTOFF) s)
       (\<lambda>(growth, s1).
     and_then (smp (ucast g) (3 + 1) (ucast LOWER_CUTOFF) (ucast UPPER_CUTOFF) s1)
       (\<lambda>(level, s2).
          let density = level - 1 in
          if density <s 0 then Inr s2
          else
            (case (if b < 0x10 then
                     (case Random e s2 of (rnd, s3) \<Rightarrow>
                        (GetRandomTreeType e (world s3) tile (GB e rnd 24 8), s3))
                   else (TreeTypeLookup e b, s2)) of
               (tree, s3) \<Rightarrow>
                 if tree = TREE_INVALID then Inr s3
                 else if CanPlantTreesOnTile e (world s3) tile True then
                   Inr (perform e (PlantTreesOnTile tile tree density growth) s3)
                 else Inr s3)))"

definition ApplySnow_with ::
  "('w, 'r) sampler \<Rightarrow> ('w, 'r) env \<Rightarrow> ('w, 'r) TileRasterCallback" where
  "ApplySnow_with smp e r g b tile s =
     and_then (smp (ucast b) (3 + 1) (ucast LOWER_CUTOFF) (ucast UPPER_CUTOFF) s)
       (\<lambda>(level, s1).
          let density = level - 1 in
          if density <s 0 then Inr s1
          else
            (let type = GetTileType e (world s1) tile in
             if type = MP_CLEAR then
               (if IsSnowTile e (world s1) tile then
                  Inr (perform e (SetClearGroundDensity tile CLEAR_SNOW density) s1)
                else Inr (perform e (MakeSnow tile density) s1))
             else if type = MP_TREES then
               (case GetTreeGround e (world s1) tile of
                  TREE_GROUND_GRASS \<Rightarrow>
                    Inr (perform e (SetTreeGroundDensity tile TREE_GROUND_SNOW_DESERT density) s1)
                | TREE_GROUND_SNOW_DESERT \<Rightarrow>
                    Inr (perform e (SetTreeGroundDensity tile TREE_GROUND_SNOW_DESERT density) s1)
                | TREE_GROUND_ROUGH \<Rightarrow>
                    Inr (perform e (SetTreeGroundDensity tile TREE_GROUND_ROUGH_SNOW density) s1)
                | TREE_GROUND_ROUGH_SNOW \<Rightarrow>
                    Inr (perform e (SetTreeGroundDensity tile TREE_GROUND_ROUGH_SNOW density) s1)
                | TREE_GROUND_SHORE \<Rightarrow> Inr s1)
             else Inr s1))"

definition ApplyDesert_with ::
  "('w, 'r) sampler \<Rightarrow> ('w, 'r) env \<Rightarrow> ('w, 'r) TileRasterCallback" where
  "ApplyDesert_with smp e r g b tile s =
     and_then (smp (ucast r) (1 + 1) (ucast LOWER_CUTOFF) (ucast UPPER_CUTOFF) s)
       (\<lambda>(level, s1).
          let density = level * 2 - 1 in
          if density <s 0 then Inr s1
          else
            (let s2 = ReplaceGround e tile CLEAR_DESERT density s1 in
             if g > UPPER_CUTOFF then Inr (perform e (SetTropicZone tile TROPICZONE_DESERT) s2)
             else Inr s2))"

text \<open>
  The sampler that refuses, with a failure, every gradient that is not one of
  \<open>classifier_gradients\<close>.
\<close>

definition only_classifier_gradients :: "('w, 'r) env \<Rightarrow> ('w, 'r) sampler" where
  "only_classifier_gradients e sample max_level start end s =
     (if (max_level, start, end) \<in> set classifier_gradients then
        SampleQuantizedGradient e sample max_level start end s
      else Inl AssertionFailed)"

section \<open>The projection as the specification words it\<close>

text \<open>
  Spec 4.1, steps 3 to 5: the cells visited are the rows \<open>[rowPadding, height - rowPadding)\<close>
  and, in each row, the columns \<open>[colPadding, width - colPadding)\<close>, in increasing order;
  the pass stops at the first failure.
\<close>

definition cells_between :: "uint \<Rightarrow> uint \<Rightarrow> uint list" where
  "cells_between first bound = map of_nat [unat first ..< unat bound]"

fun for_each :: "'a list \<Rightarrow> ('a \<Rightarrow> 's \<Rightarrow> error + 's) \<Rightarrow> 's \<Rightarrow> error + 's" where
  "for_each [] body s = Inr s"
| "for_each (x # xs) body s =
     (case body x s of Inl err \<Rightarrow> Inl err | Inr s' \<Rightarrow> for_each xs body s')"

text \<open>
  The column mapping of step 5 read literally: the counter-clockwise orientation mirrors
  the column "using the image width".
\<close>

definition claimed_source_col ::
  "HeightmapRotation \<Rightarrow> uint \<Rightarrow> projection \<Rightarrow> uint \<Rightarrow> error + uint" where
  "claimed_source_col rotation imageWidth pj dest_col =
     (case rotation of
        HM_COUNTER_CLOCKWISE \<Rightarrow>
          uint_div ((imageWidth - 1 - dest_col - map_col_pad pj) * num_div) (raster_scale pj)
      | HM_CLOCKWISE \<Rightarrow>
          uint_div ((dest_col - map_col_pad pj) * num_div) (raster_scale pj))"

section \<open>A concrete environment\<close>

text \<open>
  A 4 by 4 map of tiles that all have the kind and the slope given by the state, with a
  random generator that always draws 0 and an empty file system.  The instances of the
  theorems below are evaluated on it.
\<close>

definition test_env :: "(TileType \<times> Slope, unit) env" where
  "test_env =
     \<lparr>heightmap_rotation = HM_COUNTER_CLOCKWISE,
      landscape = LT_TEMPERATE,
      MapSizeX = (\<lambda>w. 4),
      MapSizeY = (\<lambda>w. 4),
      TileXY = (\<lambda>x y. 4 * y + x),
      IsInnerTile = (\<lambda>w t. True),
      GetTileType = (\<lambda>w t. fst w),
      GetTileSlope = (\<lambda>w t. snd w),
      IsHalftileSlope = (\<lambda>sl. sl = SLOPE_OTHER 1),
      GetTileOwner = (\<lambda>w t. OWNER_NONE),
      IsTileFlat = (\<lambda>w t. snd w = SLOPE_FLAT),
      TileHeight = (\<lambda>w t. 0),
      IsSnowTile = (\<lambda>w t. False),
      GetTreeGround = (\<lambda>w t. TREE_GROUND_GRASS),
      CanPlantTreesOnTile = (\<lambda>w t allow_desert. True),
      GetRandomTreeType = (\<lambda>w t seed. TREE_TEMPERATE),
      GB = (\<lambda>x s n. take_bit n (drop_bit s x)),
      mutate = (\<lambda>c w. w),
      next_Random = (\<lambda>rs. (0, rs)),
      next_RandomRange = (\<lambda>limit rs. (0, rs)),
      FioFOpenFile = (\<lambda>filename subdir. None)\<rparr>"

definition test_state :: "TileType \<Rightarrow> Slope \<Rightarrow> (TileType \<times> Slope, unit) state" where
  "test_state kind slope = \<lparr>world = (kind, slope), random = (), calls = []\<rparr>"

section \<open>Dimension validation\<close>

lemma MAX_RASTER_SIDE_LENGTH_IN_PIXELS_value: "MAX_RASTER_SIDE_LENGTH_IN_PIXELS = 131072"
  by (simp add: MAX_RASTER_SIDE_LENGTH_IN_PIXELS_def)

lemma MAX_RASTER_SIZE_PIXELS_value: "MAX_RASTER_SIZE_PIXELS = 268435456"
  by (simp add: MAX_RASTER_SIZE_PIXELS_def)

lemma small_product_exact:
  fixes width height :: uint64
  assumes "unat width \<le> 131072" and "unat height \<le> 131072"
  shows "unat (width * height) = unat width * unat height"
proof -
  have "unat width * unat height \<le> 131072 * 131072"
    using assms by (rule mult_le_mono)
  then have "unat width * unat height < 2 ^ 64"
    by simp
  then show ?thesis
    by (simp add: unat_word_ariths)
qed

text \<open>
  C4.  \<open>IsValidRasterDimension width height\<close> is true exactly when the product of the two
  sides, taken as natural numbers, is at most 268435456 and each side is between 1 and
  131072.  The 64-bit product of the code cannot wrap around when the sides are in range.
\<close>

theorem IsValidRasterDimension_iff:
  "IsValidRasterDimension width height \<longleftrightarrow>
     unat width * unat height \<le> 268435456 \<and>
     0 < unat width \<and> unat width \<le> 131072 \<and>
     0 < unat height \<and> unat height \<le> 131072"
  unfolding IsValidRasterDimension_def MAX_RASTER_SIDE_LENGTH_IN_PIXELS_value
    MAX_RASTER_SIZE_PIXELS_value
  using small_product_exact [of width height]
  by (auto simp add: word_le_nat_alt word_less_nat_alt)

section \<open>The quantized gradient sampler\<close>

lemma std_max_nonneg: "0 \<le>s std_max a 0"
  by (simp add: std_max_def word_sle_eq word_sless_alt)

lemma clamp_range:
  assumes "0 <s m"
  shows "0 \<le>s std_min (std_max a 0) m \<and> std_min (std_max a 0) m \<le>s m"
  using assms by (simp add: std_min_def std_max_def word_sle_eq word_sless_alt)

lemma inverted_level_range:
  fixes m y :: cint
  assumes "0 \<le>s y" and "y \<le>s m"
  shows "0 \<le>s m - y \<and> m - y \<le>s m"
proof -
  have m: "sint m < 2 ^ 31"
    using sint_lt [of m] by simp
  have y: "0 \<le> sint y" "sint y \<le> sint m"
    using assms by (simp_all add: word_sle_eq)
  have "sint (m - y) = signed_take_bit 31 (sint m - sint y)"
    by (simp add: sint_word_ariths)
  also have "\<dots> = sint m - sint y"
    using m y by (simp add: signed_take_bit_int_eq_self)
  finally show ?thesis
    using y by (simp add: word_sle_eq)
qed

lemma nonneg_not_INT_MIN: "0 \<le>s x \<Longrightarrow> x \<noteq> INT_MIN"
  by (auto simp add: word_sle_eq INT_MIN_def)

lemma abs_ge3_nonzero: "3 \<le>s std_abs d \<Longrightarrow> d \<noteq> 0 \<and> std_abs d \<noteq> 0"
  by (auto simp add: word_sle_eq std_abs_def)

lemma step_ge3_nonzero:
  fixes d :: cint
  assumes "3 \<le> \<bar>sint d\<bar>"
  shows "d \<noteq> 0" and "std_abs d \<noteq> 0"
proof -
  show "d \<noteq> 0"
    using assms by auto
  then show "std_abs d \<noteq> 0"
    by (simp add: std_abs_def)
qed

text \<open>
  What the sampler returns once the step \<open>x_delta\<close> is known not to be 0: the clamped
  level \<open>y\<close>, inverted for a descending gradient, for the draw \<open>v\<close> of \<open>RandomRange\<close>.
\<close>

lemma SampleQuantizedGradient_result:
  assumes "0 <s max_level" and "start \<noteq> end"
    and "int_div (end - start) max_level = Inr x_delta" and "x_delta \<noteq> 0"
    and "std_abs x_delta \<noteq> 0"
    and "RandomRange e (std_abs (x_delta - 2)) s = (v, s')"
  shows "\<exists>y. 0 \<le>s y \<and> y \<le>s max_level \<and>
           SampleQuantizedGradient e sample max_level start end s
             = Inr (if x_delta <s 0 then max_level - y else y, s')"
proof -
  define start' where "start' = (if end <s start then end else start)"
  define x where "x = std_max (sample - start') 0"
  have x0: "x \<noteq> INT_MIN"
    unfolding x_def by (rule nonneg_not_INT_MIN) (rule std_max_nonneg)
  obtain m where m: "int_mod x x_delta = Inr m"
    using x0 assms(4) by (simp add: int_mod_def)
  obtain y_delta where yd: "int_div x (std_abs x_delta) = Inr y_delta"
    using x0 assms(5) by (simp add: int_div_def)
  define y where "y = std_min (std_max (y_delta + (if v + 1 < m then 1 else 0)) 0) max_level"
  have "0 \<le>s y \<and> y \<le>s max_level"
    unfolding y_def using assms(1) by (rule clamp_range)
  moreover have "SampleQuantizedGradient e sample max_level start end s
      = Inr (if x_delta <s 0 then max_level - y else y, s')"
    using assms(1,2,3,6) m yd
    by (simp add: SampleQuantizedGradient_def and_then_def Let_def start'_def [symmetric]
        x_def [symmetric] y_def [symmetric])
  ultimately show ?thesis
    by blast
qed

text \<open>
  C1.  When \<open>max_level > 0\<close>, \<open>start \<noteq> end\<close> and the step \<open>(end - start) / max_level\<close> has an
  absolute value of at least 3, the sampler returns, for every sample and every draw of
  the random generator, a level between 0 and \<open>max_level\<close>.
\<close>

theorem SampleQuantizedGradient_in_range:
  assumes "0 <s max_level" and "start \<noteq> end"
    and "int_div (end - start) max_level = Inr x_delta" and "3 \<le> \<bar>sint x_delta\<bar>"
  shows "\<exists>y s'. SampleQuantizedGradient e sample max_level start end s = Inr (y, s')
           \<and> 0 \<le>s y \<and> y \<le>s max_level"
proof -
  obtain v s' where rr: "RandomRange e (std_abs (x_delta - 2)) s = (v, s')"
    by (cases "RandomRange e (std_abs (x_delta - 2)) s")
  obtain y where y: "0 \<le>s y" "y \<le>s max_level"
    and res: "SampleQuantizedGradient e sample max_level start end s
      = Inr (if x_delta <s 0 then max_level - y else y, s')"
    using SampleQuantizedGradient_result
      [OF assms(1,2,3) step_ge3_nonzero [OF assms(4)] rr, of sample]
    by blast
  show ?thesis
    using res y inverted_level_range [OF y] by auto
qed

lemma descending_step: "int_div (15 - 240) 3 = Inr (- 75)"
  by (simp add: int_div_def INT_MIN_def signed_divide_int_def)

theorem SampleQuantizedGradient_in_range_witness:
  "0 <s (3 :: cint) \<and> (240 :: cint) \<noteq> 15 \<and> int_div (15 - 240) 3 = Inr (- 75)
     \<and> 3 \<le> \<bar>sint (- 75 :: cint)\<bar>
     \<and> (\<exists>y s'. SampleQuantizedGradient test_env 240 3 240 15 (test_state MP_CLEAR SLOPE_FLAT)
            = Inr (y, s') \<and> 0 \<le>s y \<and> y \<le>s 3)"
proof -
  have p: "0 <s (3 :: cint)" "(240 :: cint) \<noteq> 15" "3 \<le> \<bar>sint (- 75 :: cint)\<bar>"
    by (simp_all add: word_sless_alt)
  show ?thesis
    using p descending_step SampleQuantizedGradient_in_range [OF p(1,2) descending_step p(3)]
    by simp
qed

text \<open>
  The descending gradient of the terrain classifier at its two ends, for every draw: the
  sample 240 is level 0 and the sample 15 is level 3.
\<close>

lemma descending_gradient_extremes:
  "(\<exists>s1. SampleQuantizedGradient e 240 3 240 15 s = Inr (0, s1))
   \<and> (\<exists>s1. SampleQuantizedGradient e 15 3 240 15 s = Inr (3, s1))"
  by (simp add: SampleQuantizedGradient_def and_then_def Let_def int_div_def int_mod_def
      INT_MIN_def std_abs_def std_max_def std_min_def signed_divide_int_def
      signed_modulo_int_def word_sless_alt word_sle_eq RandomRange_def split: prod.splits)

section \<open>The calls of a run\<close>

lemma calls_perform: "calls (perform e c s) = calls s @ [c]"
  by (simp add: perform_def)

lemma world_perform: "world (perform e c s) = mutate e c (world s)"
  by (simp add: perform_def)

lemma random_range_limits_append:
  "random_range_limits (cs @ ds) = random_range_limits cs @ random_range_limits ds"
  by (induction cs rule: random_range_limits.induct) simp_all

lemma draws_withinI:
  assumes "calls s' = calls s @ cs" and "set (random_range_limits cs) \<subseteq> L"
  shows "draws_within L s s'"
  using assms by (simp add: draws_within_def new_calls_def)

lemma draws_withinE:
  assumes "draws_within L s s'"
  obtains cs where "calls s' = calls s @ cs" and "set (random_range_limits cs) \<subseteq> L"
proof
  show "calls s' = calls s @ new_calls s s'"
    using assms unfolding draws_within_def new_calls_def
    by (metis append_take_drop_id)
  show "set (random_range_limits (new_calls s s')) \<subseteq> L"
    using assms by (simp add: draws_within_def)
qed

lemma draws_within_refl: "draws_within L s s"
  by (rule draws_withinI [of _ _ "[]"]) simp_all

lemma draws_within_trans:
  assumes "draws_within L s s1" and "draws_within L s1 s2"
  shows "draws_within L s s2"
proof -
  obtain cs where cs: "calls s1 = calls s @ cs" "set (random_range_limits cs) \<subseteq> L"
    using assms(1) by (rule draws_withinE)
  obtain ds where ds: "calls s2 = calls s1 @ ds" "set (random_range_limits ds) \<subseteq> L"
    using assms(2) by (rule draws_withinE)
  show ?thesis
    by (rule draws_withinI [of _ _ "cs @ ds"])
      (use cs ds in \<open>simp_all add: random_range_limits_append\<close>)
qed

lemma draws_within_perform:
  assumes "is_tile_mutation c"
  shows "draws_within L s (perform e c s)"
  using assms by (intro draws_withinI [of _ _ "[c]"]) (cases c; simp add: calls_perform)+

lemma draws_within_ReplaceGround: "draws_within L s (ReplaceGround e tile ground density s)"
  by (cases ground)
    (simp_all add: ReplaceGround_def Let_def draws_within_perform draws_within_refl)

lemma draws_within_Random:
  assumes "Random e s = (rnd, s1)"
  shows "draws_within L s s1" and "world s1 = world s"
proof -
  have "calls s1 = calls s @ [CallRandom]" and "world s1 = world s"
    using assms by (auto simp add: Random_def split: prod.splits)
  then show "draws_within L s s1" and "world s1 = world s"
    by (simp_all add: draws_withinI)
qed

lemma draws_within_limits:
  assumes "draws_within L s s'"
  shows "set (random_range_limits (new_calls s s')) \<subseteq> L"
  using assms by (simp add: draws_within_def)

lemma RandomRange_calls:
  assumes "RandomRange e limit s = (v, s')"
  shows "calls s' = calls s @ [CallRandomRange limit]" and "world s' = world s"
  using assms by (auto simp add: RandomRange_def split: prod.splits)

section \<open>The gradients of the classifiers\<close>

lemma classifier_gradient_steps:
  "int_div (ucast LOWER_CUTOFF - ucast UPPER_CUTOFF) 3 = Inr (- 75)"
  "int_div (ucast UPPER_CUTOFF - ucast LOWER_CUTOFF) 1 = Inr 225"
  "int_div (ucast UPPER_CUTOFF - ucast LOWER_CUTOFF) 6 = Inr 37"
  "int_div (ucast UPPER_CUTOFF - ucast LOWER_CUTOFF) (3 + 1) = Inr 56"
  "int_div (ucast UPPER_CUTOFF - ucast LOWER_CUTOFF) (1 + 1) = Inr 112"
  by (simp_all add: int_div_def INT_MIN_def LOWER_CUTOFF_def UPPER_CUTOFF_def
      signed_divide_int_def)

text \<open>
  A step that is at least 3 or at most -5 (and not near \<open>INT_MIN\<close>) is not 0, has an
  absolute value of at least 3, and gives \<open>RandomRange\<close> a positive bound.
\<close>

lemma gradient_sound:
  assumes "int_div (end - start) max_level = Inr x_delta" and "0 <s max_level"
    and "start \<noteq> end" and "3 \<le>s x_delta \<or> x_delta \<le>s - 5" and "- 1000 \<le>s x_delta"
  shows "\<exists>x_delta. int_div (end - start) max_level = Inr x_delta \<and> 0 <s max_level
           \<and> start \<noteq> end \<and> 3 \<le> \<bar>sint x_delta\<bar> \<and> x_delta \<noteq> 0 \<and> std_abs x_delta \<noteq> 0
           \<and> 0 <s std_abs (x_delta - 2) \<and> 0 < jitter_limit (max_level, start, end)"
proof -
  have b: "sint x_delta < 2 ^ 31"
    using sint_lt [of x_delta] by simp
  have d: "3 \<le> sint x_delta \<or> sint x_delta \<le> - 5" and lo: "- 1000 \<le> sint x_delta"
    using assms(4,5) by (simp_all add: word_sle_eq)
  have neg: "sint (- x_delta) = - sint x_delta"
    using b lo by (simp add: sint_word_ariths signed_take_bit_int_eq_self)
  have sub: "sint (x_delta - 2) = sint x_delta - 2"
    using b lo by (simp add: sint_word_ariths signed_take_bit_int_eq_self)
  have neg2: "sint (- (x_delta - 2)) = 2 - sint x_delta"
    using b lo sub by (simp add: sint_word_ariths signed_take_bit_int_eq_self)
  have abs1: "3 \<le>s std_abs x_delta"
    using d neg by (auto simp add: std_abs_def word_sle_eq word_sless_alt)
  have abs2: "0 <s std_abs (x_delta - 2)"
    using d sub neg2 by (auto simp add: std_abs_def word_sle_eq word_sless_alt)
  have nz: "x_delta \<noteq> 0" "std_abs x_delta \<noteq> 0"
    using abs_ge3_nonzero [OF abs1] by simp_all
  have "std_abs (x_delta - 2) \<noteq> 0"
    using abs2 by (auto simp add: word_sless_alt)
  then have "0 < jitter_limit (max_level, start, end)"
    using assms(1) by (simp add: word_neq_0_conv)
  moreover have "3 \<le> \<bar>sint x_delta\<bar>"
    using d by linarith
  ultimately show ?thesis
    using assms abs2 nz by blast
qed

lemma classifier_gradients_sound:
  assumes "(max_level, start, end) \<in> set classifier_gradients"
  shows "\<exists>x_delta. int_div (end - start) max_level = Inr x_delta \<and> 0 <s max_level
           \<and> start \<noteq> end \<and> 3 \<le> \<bar>sint x_delta\<bar> \<and> x_delta \<noteq> 0 \<and> std_abs x_delta \<noteq> 0
           \<and> 0 <s std_abs (x_delta - 2) \<and> 0 < jitter_limit (max_level, start, end)"
proof -
  consider "max_level = 3" "start = ucast UPPER_CUTOFF" "end = ucast LOWER_CUTOFF"
    | "max_level = 1" "start = ucast LOWER_CUTOFF" "end = ucast UPPER_CUTOFF"
    | "max_level = 6" "start = ucast LOWER_CUTOFF" "end = ucast UPPER_CUTOFF"
    | "max_level = 3 + 1" "start = ucast LOWER_CUTOFF" "end = ucast UPPER_CUTOFF"
    | "max_level = 1 + 1" "start = ucast LOWER_CUTOFF" "end = ucast UPPER_CUTOFF"
    using assms unfolding classifier_gradients_def by auto
  then show ?thesis
  proof cases
    case 1
    show ?thesis
      unfolding 1 by (rule gradient_sound [OF classifier_gradient_steps(1)])
        (simp_all add: word_sle_eq word_sless_alt LOWER_CUTOFF_def UPPER_CUTOFF_def)
  next
    case 2
    show ?thesis
      unfolding 2 by (rule gradient_sound [OF classifier_gradient_steps(2)])
        (simp_all add: word_sle_eq word_sless_alt LOWER_CUTOFF_def UPPER_CUTOFF_def)
  next
    case 3
    show ?thesis
      unfolding 3 by (rule gradient_sound [OF classifier_gradient_steps(3)])
        (simp_all add: word_sle_eq word_sless_alt LOWER_CUTOFF_def UPPER_CUTOFF_def)
  next
    case 4
    show ?thesis
      unfolding 4 by (rule gradient_sound [OF classifier_gradient_steps(4)])
        (simp_all add: word_sle_eq word_sless_alt LOWER_CUTOFF_def UPPER_CUTOFF_def)
  next
    case 5
    show ?thesis
      unfolding 5 by (rule gradient_sound [OF classifier_gradient_steps(5)])
        (simp_all add: word_sle_eq word_sless_alt LOWER_CUTOFF_def UPPER_CUTOFF_def)
  qed
qed

lemma gradient_members:
  "(3, ucast UPPER_CUTOFF, ucast LOWER_CUTOFF) \<in> set classifier_gradients"
  "(1, ucast LOWER_CUTOFF, ucast UPPER_CUTOFF) \<in> set classifier_gradients"
  "(6, ucast LOWER_CUTOFF, ucast UPPER_CUTOFF) \<in> set classifier_gradients"
  "(3 + 1, ucast LOWER_CUTOFF, ucast UPPER_CUTOFF) \<in> set classifier_gradients"
  "(1 + 1, ucast LOWER_CUTOFF, ucast UPPER_CUTOFF) \<in> set classifier_gradients"
  by (simp_all add: classifier_gradients_def)

text \<open>
  On one of these gradients the sampler returns a level in range, leaves the grid alone
  and makes one call, to \<open>RandomRange\<close> with the bound of the gradient.
\<close>

lemma sampler_at_gradient:
  assumes "(max_level, start, end) \<in> set classifier_gradients"
  shows "\<exists>y s'. SampleQuantizedGradient e sample max_level start end s = Inr (y, s')
           \<and> 0 \<le>s y \<and> y \<le>s max_level \<and> world s' = world s
           \<and> calls s' = calls s @ [CallRandomRange (jitter_limit (max_level, start, end))]"
proof -
  obtain x_delta where g: "int_div (end - start) max_level = Inr x_delta" "0 <s max_level"
    "start \<noteq> end" "x_delta \<noteq> 0" "std_abs x_delta \<noteq> 0"
    using classifier_gradients_sound [OF assms] by blast
  obtain v s' where rr: "RandomRange e (std_abs (x_delta - 2)) s = (v, s')"
    by (cases "RandomRange e (std_abs (x_delta - 2)) s")
  obtain y where y: "0 \<le>s y" "y \<le>s max_level"
    and res: "SampleQuantizedGradient e sample max_level start end s
      = Inr (if x_delta <s 0 then max_level - y else y, s')"
    using SampleQuantizedGradient_result [OF g(2,3,1,4,5) rr, of sample] by blast
  have "std_abs (x_delta - 2) = jitter_limit (max_level, start, end)"
    using g(1) by simp
  then show ?thesis
    using res y inverted_level_range [OF y] RandomRange_calls [OF rr] by auto
qed

lemma and_then_sampler:
  assumes "(max_level, start, end) \<in> set classifier_gradients"
    and "\<And>y s1. world s1 = world s \<Longrightarrow>
           \<exists>s2. f (y, s1) = Inr s2 \<and> draws_within (jitter_limit ` set classifier_gradients) s1 s2"
  shows "\<exists>s2. and_then (SampleQuantizedGradient e sample max_level start end s) f = Inr s2
           \<and> draws_within (jitter_limit ` set classifier_gradients) s s2"
proof -
  obtain y s1 where s1: "SampleQuantizedGradient e sample max_level start end s = Inr (y, s1)"
    "world s1 = world s"
    "calls s1 = calls s @ [CallRandomRange (jitter_limit (max_level, start, end))]"
    using sampler_at_gradient [OF assms(1), of e sample s] by blast
  have "jitter_limit (max_level, start, end) \<in> jitter_limit ` set classifier_gradients"
    using assms(1) by (rule imageI)
  then have d: "draws_within (jitter_limit ` set classifier_gradients) s s1"
    by (intro draws_withinI [OF s1(3)]) (simp del: jitter_limit.simps)
  obtain s2 where s2: "f (y, s1) = Inr s2"
    "draws_within (jitter_limit ` set classifier_gradients) s1 s2"
    using assms(2) [OF s1(2), of y] by blast
  show ?thesis
    using s1(1) s2(1) draws_within_trans [OF d s2(2)] by (simp add: and_then_def)
qed

lemma and_then_state:
  assumes "\<exists>s1. m = Inr s1 \<and> draws_within L s s1"
    and "\<And>s1. \<exists>s2. f s1 = Inr s2 \<and> draws_within L s1 s2"
  shows "\<exists>s2. and_then m f = Inr s2 \<and> draws_within L s s2"
proof -
  obtain s1 where s1: "m = Inr s1" "draws_within L s s1"
    using assms(1) by blast
  obtain s2 where s2: "f s1 = Inr s2" "draws_within L s1 s2"
    using assms(2) [of s1] by blast
  show ?thesis
    using s1(1) s2(1) draws_within_trans [OF s1(2) s2(2)] by (simp add: and_then_def)
qed

text \<open>No classifier fails, and each draws within the bounds of the five gradients.\<close>

lemma ApplyTerrain_draws:
  "\<exists>s'. ApplyTerrain e r g b tile s = Inr s'
     \<and> draws_within (jitter_limit ` set classifier_gradients) s s'"
  unfolding ApplyTerrain_def Let_def
  by (auto intro!: and_then_state and_then_sampler gradient_members
      draws_within_refl draws_within_ReplaceGround)

lemma ApplyFields_draws:
  "\<exists>s'. ApplyFields e r g b tile s = Inr s'
     \<and> draws_within (jitter_limit ` set classifier_gradients) s s'"
proof -
  obtain field where f: "int_mod (ucast (drop_bit 4 r) - 1) 9 = Inr field"
    by (simp add: int_mod_def)
  show ?thesis
    unfolding ApplyFields_def f
    by (auto simp add: and_then_def [of "Inr field"]
        intro!: and_then_sampler gradient_members draws_within_refl draws_within_perform)
qed

lemma ApplyWater_draws:
  "\<exists>s'. ApplyWater e r g b tile s = Inr s'
     \<and> draws_within (jitter_limit ` set classifier_gradients) s s'"
proof -
  obtain rnd s1 where r: "Random e s = (rnd, s1)"
    by (cases "Random e s")
  have "draws_within (jitter_limit ` set classifier_gradients) s (perform e c s1)"
    if "is_tile_mutation c" for c
    using draws_within_trans [OF draws_within_Random(1) [OF r] draws_within_perform [OF that]] .
  then show ?thesis
    unfolding ApplyWater_def Let_def r
    by (auto intro!: draws_within_refl draws_within_perform)
qed

lemma ApplyTrees_draws:
  "\<exists>s'. ApplyTrees e r g b tile s = Inr s'
     \<and> draws_within (jitter_limit ` set classifier_gradients) s s'"
proof -
  have tail: "\<exists>s3. (let density = level - 1 in
          if density <s 0 then Inr s2
          else
            (case (if b < 0x10 then
                     (case Random e s2 of (rnd, s3) \<Rightarrow>
                        (GetRandomTreeType e (world s3) tile (GB e rnd 24 8), s3))
                   else (TreeTypeLookup e b, s2)) of
               (tree, s3) \<Rightarrow>
                 if tree = TREE_INVALID then Inr s3
                 else if CanPlantTreesOnTile e (world s3) tile True then
                   Inr (perform e (PlantTreesOnTile tile tree density growth) s3)
                 else Inr s3)) = Inr s3
       \<and> draws_within (jitter_limit ` set classifier_gradients) s2 s3" for level growth s2
  proof -
    obtain rnd s3 where r: "Random e s2 = (rnd, s3)"
      by (cases "Random e s2")
    have "draws_within (jitter_limit ` set classifier_gradients) s2 (perform e c s3)"
      if "is_tile_mutation c" for c
      using draws_within_trans [OF draws_within_Random(1) [OF r] draws_within_perform [OF that]] .
    then show ?thesis
      unfolding Let_def r
      using draws_within_Random(1) [OF r]
      by (auto intro!: draws_within_refl draws_within_perform)
  qed
  have second: "\<exists>s3. and_then
      (SampleQuantizedGradient e (ucast g) (3 + 1) (ucast LOWER_CUTOFF) (ucast UPPER_CUTOFF) s1)
       (\<lambda>(level, s2).
          let density = level - 1 in
          if density <s 0 then Inr s2
          else
            (case (if b < 0x10 then
                     (case Random e s2 of (rnd, s3) \<Rightarrow>
                        (GetRandomTreeType e (world s3) tile (GB e rnd 24 8), s3))
                   else (TreeTypeLookup e b, s2)) of
               (tree, s3) \<Rightarrow>
                 if tree = TREE_INVALID then Inr s3
                 else if CanPlantTreesOnTile e (world s3) tile True then
                   Inr (perform e (PlantTreesOnTile tile tree density growth) s3)
                 else Inr s3)) = Inr s3
       \<and> draws_within (jitter_limit ` set classifier_gradients) s1 s3" for growth s1
    by (rule and_then_sampler [OF gradient_members(4)]) (simp add: tail)
  show ?thesis
  proof (cases "r < 0x10")
    case True
    then show ?thesis
      unfolding ApplyTrees_def using second [of s 3] by (simp add: and_then_def [of "Inr (3, s)"])
  next
    case False
    have "\<exists>s'. and_then
        (SampleQuantizedGradient e (ucast r) 6 (ucast LOWER_CUTOFF) (ucast UPPER_CUTOFF) s)
        (\<lambda>(growth, s1).
           and_then
             (SampleQuantizedGradient e (ucast g) (3 + 1) (ucast LOWER_CUTOFF) (ucast UPPER_CUTOFF) s1)
             (\<lambda>(level, s2).
                let density = level - 1 in
                if density <s 0 then Inr s2
                else
                  (case (if b < 0x10 then
                           (case Random e s2 of (rnd, s3) \<Rightarrow>
                              (GetRandomTreeType e (world s3) tile (GB e rnd 24 8), s3))
                         else (TreeTypeLookup e b, s2)) of
                     (tree, s3) \<Rightarrow>
                       if tree = TREE_INVALID then Inr s3
                       else if CanPlantTreesOnTile e (world s3) tile True then
                         Inr (perform e (PlantTreesOnTile tile tree density growth) s3)
                       else Inr s3))) = Inr s'
        \<and> draws_within (jitter_limit ` set classifier_gradients) s s'"
      by (rule and_then_sampler [OF gradient_members(3)]) (use second in simp)
    with False show ?thesis
      unfolding ApplyTrees_def by simp
  qed
qed

lemma ApplySnow_draws:
  "\<exists>s'. ApplySnow e r g b tile s = Inr s'
     \<and> draws_within (jitter_limit ` set classifier_gradients) s s'"
  unfolding ApplySnow_def Let_def
  by (rule and_then_sampler [OF gradient_members(4)])
    (auto intro!: draws_within_refl draws_within_perform split: TreeGround.splits)

lemma ApplyDesert_draws:
  "\<exists>s'. ApplyDesert e r g b tile s = Inr s'
     \<and> draws_within (jitter_limit ` set classifier_gradients) s s'"
  unfolding ApplyDesert_def Let_def
  by (rule and_then_sampler [OF gradient_members(5)])
    (auto intro!: draws_within_refl draws_within_ReplaceGround
      draws_within_trans [OF draws_within_ReplaceGround draws_within_perform])

lemma ApplyTropics_draws:
  "\<exists>s'. ApplyTropics e r g b tile s = Inr s'
     \<and> draws_within (jitter_limit ` set classifier_gradients) s s'"
  unfolding ApplyTropics_def
  by (auto intro!: draws_within_refl draws_within_perform)

text \<open>
  A function that agrees with the sampler on the five gradients can take its place at
  every call site of the five classifiers that sample.
\<close>

lemma classifiers_with_sampler:
  assumes "\<forall>(max_level, start, end) \<in> set classifier_gradients. \<forall>sample s1.
      smp sample max_level start end s1 = SampleQuantizedGradient e sample max_level start end s1"
  shows "ApplyTerrain_with smp e r g b tile s = ApplyTerrain e r g b tile s"
    and "ApplyFields_with smp e r g b tile s = ApplyFields e r g b tile s"
    and "ApplyTrees_with smp e r g b tile s = ApplyTrees e r g b tile s"
    and "ApplySnow_with smp e r g b tile s = ApplySnow e r g b tile s"
    and "ApplyDesert_with smp e r g b tile s = ApplyDesert e r g b tile s"
proof -
  have at: "smp sample m st en s1 = SampleQuantizedGradient e sample m st en s1"
    if "(m, st, en) \<in> set classifier_gradients" for sample m st en s1
    using assms that by blast
  note eqs = at [OF gradient_members(1)] at [OF gradient_members(2)] at [OF gradient_members(3)]
    at [OF gradient_members(4)] at [OF gradient_members(5)]
  show "ApplyTerrain_with smp e r g b tile s = ApplyTerrain e r g b tile s"
    unfolding ApplyTerrain_with_def ApplyTerrain_def eqs by (rule refl)
  show "ApplyFields_with smp e r g b tile s = ApplyFields e r g b tile s"
    unfolding ApplyFields_with_def ApplyFields_def eqs by (rule refl)
  show "ApplyTrees_with smp e r g b tile s = ApplyTrees e r g b tile s"
    unfolding ApplyTrees_with_def ApplyTrees_def eqs by (rule refl)
  show "ApplySnow_with smp e r g b tile s = ApplySnow e r g b tile s"
    unfolding ApplySnow_with_def ApplySnow_def eqs by (rule refl)
  show "ApplyDesert_with smp e r g b tile s = ApplyDesert e r g b tile s"
    unfolding ApplyDesert_with_def ApplyDesert_def eqs by (rule refl)
qed

lemma only_classifier_gradients_agrees:
  "\<forall>(max_level, start, end) \<in> set classifier_gradients. \<forall>sample s1.
      only_classifier_gradients e sample max_level start end s1
        = SampleQuantizedGradient e sample max_level start end s1"
  by (auto simp add: only_classifier_gradients_def)

text \<open>
  C9.  The gradients that the classifiers sample are \<open>(3, 240, 15)\<close>, \<open>(1, 15, 240)\<close>,
  \<open>(6, 15, 240)\<close>, \<open>(4, 15, 240)\<close> and \<open>(2, 15, 240)\<close>.  For each of them the step
  \<open>x_delta\<close> has an absolute value of at least 3, so it is not 0, the remainder and the
  division of the sampler are defined, and the bound \<open>|x_delta - 2|\<close> passed to
  \<open>RandomRange\<close> is positive.  Every classifier returns without an assertion failure or a
  division by zero, for every pixel, tile and state, and every bound it passes to
  \<open>RandomRange\<close> is the bound of one of these five gradients.  Every call site of the
  sampler in a classifier passes one of these five gradients: whatever function agrees
  with the sampler on the five gradients, and be it one that fails on every other
  gradient, the classifier that calls it at its call sites is the classifier itself, for
  every pixel, tile and state.
\<close>

theorem classifier_gradient_calls:
  "classifier_gradients = [(3, 240, 15), (1, 15, 240), (6, 15, 240), (4, 15, 240), (2, 15, 240)]
   \<and> (\<forall>(max_level, start, end) \<in> set classifier_gradients.
        \<exists>x_delta. int_div (end - start) max_level = Inr x_delta \<and> 0 <s max_level
          \<and> start \<noteq> end \<and> 3 \<le> \<bar>sint x_delta\<bar> \<and> x_delta \<noteq> 0 \<and> std_abs x_delta \<noteq> 0
          \<and> 0 <s std_abs (x_delta - 2) \<and> 0 < jitter_limit (max_level, start, end))
   \<and> (\<forall>proc \<in> set [ApplyTerrain e, ApplyFields e, ApplyWater e, ApplyTrees e, ApplySnow e,
                       ApplyDesert e, ApplyTropics e].
        \<exists>s'. proc r g b tile s = Inr s'
          \<and> set (random_range_limits (new_calls s s')) \<subseteq> jitter_limit ` set classifier_gradients)
   \<and> (\<forall>smp.
        (\<forall>(max_level, start, end) \<in> set classifier_gradients. \<forall>sample s1.
           smp sample max_level start end s1
             = SampleQuantizedGradient e sample max_level start end s1) \<longrightarrow>
        ApplyTerrain_with smp e r g b tile s = ApplyTerrain e r g b tile s
        \<and> ApplyFields_with smp e r g b tile s = ApplyFields e r g b tile s
        \<and> ApplyTrees_with smp e r g b tile s = ApplyTrees e r g b tile s
        \<and> ApplySnow_with smp e r g b tile s = ApplySnow e r g b tile s
        \<and> ApplyDesert_with smp e r g b tile s = ApplyDesert e r g b tile s)"
proof (intro conjI)
  show "classifier_gradients = [(3, 240, 15), (1, 15, 240), (6, 15, 240), (4, 15, 240), (2, 15, 240)]"
    by (simp add: classifier_gradients_def LOWER_CUTOFF_def UPPER_CUTOFF_def)
  show "\<forall>(max_level, start, end) \<in> set classifier_gradients.
        \<exists>x_delta. int_div (end - start) max_level = Inr x_delta \<and> 0 <s max_level
          \<and> start \<noteq> end \<and> 3 \<le> \<bar>sint x_delta\<bar> \<and> x_delta \<noteq> 0 \<and> std_abs x_delta \<noteq> 0
          \<and> 0 <s std_abs (x_delta - 2) \<and> 0 < jitter_limit (max_level, start, end)"
    using classifier_gradients_sound by blast
  show "\<forall>proc \<in> set [ApplyTerrain e, ApplyFields e, ApplyWater e, ApplyTrees e, ApplySnow e,
                       ApplyDesert e, ApplyTropics e].
        \<exists>s'. proc r g b tile s = Inr s'
          \<and> set (random_range_limits (new_calls s s')) \<subseteq> jitter_limit ` set classifier_gradients"
    using ApplyTerrain_draws [of e r g b tile s] ApplyFields_draws [of e r g b tile s]
      ApplyWater_draws [of e r g b tile s] ApplyTrees_draws [of e r g b tile s]
      ApplySnow_draws [of e r g b tile s] ApplyDesert_draws [of e r g b tile s]
      ApplyTropics_draws [of e r g b tile s]
    by (auto dest: draws_within_limits)
  show "\<forall>smp.
        (\<forall>(max_level, start, end) \<in> set classifier_gradients. \<forall>sample s1.
           smp sample max_level start end s1
             = SampleQuantizedGradient e sample max_level start end s1) \<longrightarrow>
        ApplyTerrain_with smp e r g b tile s = ApplyTerrain e r g b tile s
        \<and> ApplyFields_with smp e r g b tile s = ApplyFields e r g b tile s
        \<and> ApplyTrees_with smp e r g b tile s = ApplyTrees e r g b tile s
        \<and> ApplySnow_with smp e r g b tile s = ApplySnow e r g b tile s
        \<and> ApplyDesert_with smp e r g b tile s = ApplyDesert e r g b tile s"
    by (intro allI impI conjI) (rule classifiers_with_sampler; assumption)+
qed

theorem classifier_gradient_calls_witness:
  "(3, 240, 15) \<in> set classifier_gradients
   \<and> (\<exists>x_delta. int_div (15 - 240) 3 = Inr x_delta \<and> 3 \<le> \<bar>sint x_delta\<bar> \<and> x_delta \<noteq> 0
         \<and> 0 < jitter_limit (3, 240, 15))
   \<and> (\<exists>s'. ApplyTerrain test_env 255 255 255 0 (test_state MP_CLEAR SLOPE_FLAT) = Inr s'
         \<and> set (random_range_limits (new_calls (test_state MP_CLEAR SLOPE_FLAT) s'))
             \<subseteq> jitter_limit ` set classifier_gradients)
   \<and> (\<forall>sample s1. only_classifier_gradients test_env sample 3 240 15 s1
         = SampleQuantizedGradient test_env sample 3 240 (15 :: cint)
             (s1 :: (TileType \<times> Slope, unit) state))
   \<and> ApplyTerrain_with (only_classifier_gradients test_env) test_env 255 255 255 0
         (test_state MP_CLEAR SLOPE_FLAT)
       = ApplyTerrain test_env 255 255 255 0 (test_state MP_CLEAR SLOPE_FLAT)
   \<and> ApplyDesert_with (only_classifier_gradients test_env) test_env 255 255 255 0
         (test_state MP_CLEAR SLOPE_FLAT)
       = ApplyDesert test_env 255 255 255 0 (test_state MP_CLEAR SLOPE_FLAT)"
proof -
  note inst = classifier_gradient_calls [of test_env 255 255 255 0 "test_state MP_CLEAR SLOPE_FLAT"]
  have eq: "classifier_gradients
      = [(3, 240, 15), (1, 15, 240), (6, 15, 240), (4, 15, 240), (2, 15, 240)]"
    using inst by (rule conjunct1)
  have m: "(3, 240, 15) \<in> set classifier_gradients"
    by (simp add: eq)
  have "\<forall>(max_level, start, end) \<in> set classifier_gradients.
        \<exists>x_delta. int_div (end - start) max_level = Inr x_delta \<and> 0 <s max_level
          \<and> start \<noteq> end \<and> 3 \<le> \<bar>sint x_delta\<bar> \<and> x_delta \<noteq> 0 \<and> std_abs x_delta \<noteq> 0
          \<and> 0 <s std_abs (x_delta - 2) \<and> 0 < jitter_limit (max_level, start, end)"
    using inst by (rule conjunct2 [THEN conjunct1])
  with m have g: "\<exists>x_delta. int_div (15 - 240) 3 = Inr x_delta \<and> 3 \<le> \<bar>sint x_delta\<bar>
      \<and> x_delta \<noteq> 0 \<and> 0 < jitter_limit (3, 240, 15)"
    by fastforce
  have "\<forall>proc \<in> set [ApplyTerrain test_env, ApplyFields test_env, ApplyWater test_env,
      ApplyTrees test_env, ApplySnow test_env, ApplyDesert test_env, ApplyTropics test_env].
        \<exists>s'. proc 255 255 255 0 (test_state MP_CLEAR SLOPE_FLAT) = Inr s'
          \<and> set (random_range_limits (new_calls (test_state MP_CLEAR SLOPE_FLAT) s'))
              \<subseteq> jitter_limit ` set classifier_gradients"
    using inst by (rule conjunct2 [THEN conjunct2, THEN conjunct1])
  then have t: "\<exists>s'. ApplyTerrain test_env 255 255 255 0 (test_state MP_CLEAR SLOPE_FLAT) = Inr s'
         \<and> set (random_range_limits (new_calls (test_state MP_CLEAR SLOPE_FLAT) s'))
             \<subseteq> jitter_limit ` set classifier_gradients"
    by simp
  have agrees: "\<forall>(max_level, start, end) \<in> set classifier_gradients. \<forall>sample s1.
      only_classifier_gradients test_env sample max_level start end s1
        = SampleQuantizedGradient test_env sample max_level start end
            (s1 :: (TileType \<times> Slope, unit) state)"
    by (rule only_classifier_gradients_agrees)
  have a1: "\<forall>sample s1. only_classifier_gradients test_env sample 3 240 15 s1
         = SampleQuantizedGradient test_env sample 3 240 (15 :: cint)
             (s1 :: (TileType \<times> Slope, unit) state)"
    using agrees m by fastforce
  have sites: "ApplyTerrain_with (only_classifier_gradients test_env) test_env 255 255 255 0
         (test_state MP_CLEAR SLOPE_FLAT)
       = ApplyTerrain test_env 255 255 255 0 (test_state MP_CLEAR SLOPE_FLAT)
     \<and> ApplyFields_with (only_classifier_gradients test_env) test_env 255 255 255 0
         (test_state MP_CLEAR SLOPE_FLAT)
       = ApplyFields test_env 255 255 255 0 (test_state MP_CLEAR SLOPE_FLAT)
     \<and> ApplyTrees_with (only_classifier_gradients test_env) test_env 255 255 255 0
         (test_state MP_CLEAR SLOPE_FLAT)
       = ApplyTrees test_env 255 255 255 0 (test_state MP_CLEAR SLOPE_FLAT)
     \<and> ApplySnow_with (only_classifier_gradients test_env) test_env 255 255 255 0
         (test_state MP_CLEAR SLOPE_FLAT)
       = ApplySnow test_env 255 255 255 0 (test_state MP_CLEAR SLOPE_FLAT)
     \<and> ApplyDesert_with (only_classifier_gradients test_env) test_env 255 255 255 0
         (test_state MP_CLEAR SLOPE_FLAT)
       = ApplyDesert test_env 255 255 255 0 (test_state MP_CLEAR SLOPE_FLAT)"
    using inst [THEN conjunct2, THEN conjunct2, THEN conjunct2, THEN spec, THEN mp, OF agrees] .
  show ?thesis
    using m g t a1 sites by blast
qed

section \<open>Ground writes on other kinds of tile\<close>

lemma ReplaceGround_other_kind:
  assumes "GetTileType e (world s) tile \<noteq> MP_CLEAR" and "GetTileType e (world s) tile \<noteq> MP_TREES"
  shows "ReplaceGround e tile ground density s = s"
  using assms by (simp add: ReplaceGround_def)

text \<open>
  C10.  On a tile that is neither \<open>MP_CLEAR\<close> nor \<open>MP_TREES\<close>, \<open>ReplaceGround\<close> returns the
  state as it was, \<open>ApplyTerrain\<close> returns the state as it was, and \<open>ApplyDesert\<close>, which
  reaches \<open>ReplaceGround\<close> without a guard of its own, makes no ground write: the grid is
  unchanged or differs by the one \<open>SetTropicZone\<close> call of the green channel.
\<close>

theorem ReplaceGround_other_tile_kinds:
  assumes "GetTileType e (world s) tile \<noteq> MP_CLEAR" and "GetTileType e (world s) tile \<noteq> MP_TREES"
  shows "ReplaceGround e tile ground density s = s
    \<and> ApplyTerrain e r g b tile s = Inr s
    \<and> (\<exists>s'. ApplyDesert e r g b tile s = Inr s'
          \<and> \<not> list_ex is_ground_write (new_calls s s')
          \<and> (world s' = world s
               \<or> world s' = mutate e (SetTropicZone tile TROPICZONE_DESERT) (world s)))"
proof (intro conjI)
  show "ReplaceGround e tile ground density s = s"
    using assms by (rule ReplaceGround_other_kind)
  show "ApplyTerrain e r g b tile s = Inr s"
    using assms by (simp add: ApplyTerrain_def)
  obtain y s1 where s1: "SampleQuantizedGradient e (ucast r) (1 + 1) (ucast LOWER_CUTOFF)
        (ucast UPPER_CUTOFF) s = Inr (y, s1)"
    and w: "world s1 = world s"
    and c: "calls s1 = calls s
        @ [CallRandomRange (jitter_limit (1 + 1, ucast LOWER_CUTOFF, ucast UPPER_CUTOFF))]"
    using sampler_at_gradient [OF gradient_members(5), of e "ucast r" s] by blast
  have rg: "ReplaceGround e tile CLEAR_DESERT (y * 2 - 1) s1 = s1"
    using assms w by (simp add: ReplaceGround_other_kind)
  show "\<exists>s'. ApplyDesert e r g b tile s = Inr s'
          \<and> \<not> list_ex is_ground_write (new_calls s s')
          \<and> (world s' = world s
               \<or> world s' = mutate e (SetTropicZone tile TROPICZONE_DESERT) (world s))"
  proof (cases "y * 2 - 1 <s 0")
    case True
    then have "ApplyDesert e r g b tile s = Inr s1"
      using s1 by (simp add: ApplyDesert_def and_then_def)
    then show ?thesis
      using w c by (simp add: new_calls_def)
  next
    case neg: False
    show ?thesis
    proof (cases "g > UPPER_CUTOFF")
      case True
      then have "ApplyDesert e r g b tile s
          = Inr (perform e (SetTropicZone tile TROPICZONE_DESERT) s1)"
        using s1 neg rg by (simp add: ApplyDesert_def and_then_def)
      then show ?thesis
        using w c by (simp add: new_calls_def calls_perform world_perform)
    next
      case False
      then have "ApplyDesert e r g b tile s = Inr s1"
        using s1 neg rg by (simp add: ApplyDesert_def and_then_def)
      then show ?thesis
        using w c by (simp add: new_calls_def)
    qed
  qed
qed

theorem ReplaceGround_other_tile_kinds_witness:
  "GetTileType test_env (world (test_state MP_WATER SLOPE_FLAT)) 5 \<noteq> MP_CLEAR
   \<and> GetTileType test_env (world (test_state MP_WATER SLOPE_FLAT)) 5 \<noteq> MP_TREES
   \<and> ReplaceGround test_env 5 CLEAR_DESERT 3 (test_state MP_WATER SLOPE_FLAT)
       = test_state MP_WATER SLOPE_FLAT
   \<and> ApplyTerrain test_env 255 255 255 5 (test_state MP_WATER SLOPE_FLAT)
       = Inr (test_state MP_WATER SLOPE_FLAT)
   \<and> (\<exists>s'. ApplyDesert test_env 255 255 255 5 (test_state MP_WATER SLOPE_FLAT) = Inr s'
          \<and> \<not> list_ex is_ground_write (new_calls (test_state MP_WATER SLOPE_FLAT) s'))"
proof -
  have k: "GetTileType test_env (world (test_state MP_WATER SLOPE_FLAT)) 5 \<noteq> MP_CLEAR"
    "GetTileType test_env (world (test_state MP_WATER SLOPE_FLAT)) 5 \<noteq> MP_TREES"
    by (simp_all add: test_env_def test_state_def)
  show ?thesis
    using k ReplaceGround_other_tile_kinds [OF k, of CLEAR_DESERT 3 255 255 255]
    by blast
qed

section \<open>The fields classifier\<close>

lemma ApplyFields_below_cutoff: "r < LOWER_CUTOFF \<Longrightarrow> ApplyFields e r g b tile s = Inr s"
  by (simp add: ApplyFields_def)

text \<open>From 16 on, the red channel gives a field type between 0 and 8.\<close>

lemma field_type_in_range:
  fixes r :: byte
  assumes "16 \<le> r"
  shows "\<exists>field. int_mod (ucast (drop_bit 4 r) - 1) 9 = Inr field
           \<and> unat field = (unat r div 16 - 1) mod 9 \<and> field < 9"
proof -
  define q :: cint where "q = ucast (drop_bit 4 r)"
  define n where "n = unat r div 16"
  have r16: "16 \<le> unat r"
    using assms by (simp add: word_le_nat_alt)
  have rb: "unat r < 256"
    using unsigned_less [of r, where ?'a = nat] by simp
  have n: "1 \<le> n" "n < 16"
    using r16 rb by (simp_all add: n_def)
  have "unat (drop_bit 4 r) = n"
    by (simp add: n_def drop_bit_eq_div unat_div_distrib)
  moreover have "n < 2 ^ 32"
    using n by simp
  ultimately have "unat q = n"
    unfolding q_def by (simp add: unsigned_ucast_eq take_bit_nat_eq_self)
  then have q: "q = of_nat n"
    using of_nat_unat [of q, where ?'a = cint] by simp
  have "n \<in> {1, 2, 3, 4, 5, 6, 7, 8, 9, 10, 11, 12, 13, 14, 15}"
    using n by (simp; arith)
  then show ?thesis
    unfolding q_def [symmetric] n_def [symmetric] q
    by (auto simp add: int_mod_def INT_MIN_def signed_modulo_int_def)
qed

lemma gradient_full_green:
  "\<exists>s1. SampleQuantizedGradient e 255 1 15 240 s = Inr (1, s1) \<and> world s1 = world s
     \<and> calls s1 = calls s @ [CallRandomRange 223]"
  by (simp add: SampleQuantizedGradient_def and_then_def Let_def int_div_def int_mod_def
      INT_MIN_def std_abs_def std_max_def std_min_def signed_divide_int_def
      signed_modulo_int_def word_sless_alt word_sle_eq RandomRange_def split: prod.splits)

lemma field_at_cutoff: "int_mod (ucast (drop_bit 4 (15 :: byte)) - 1) 9 = Inr 0xFFFFFFFF"
  by (simp add: int_mod_def INT_MIN_def signed_modulo_int_def drop_bit_eq_div)

text \<open>
  C6.  The claim fails on the code at \<open>r = 15\<close>.  The guard lets 15 through, \<open>(15 >> 4) - 1\<close>
  is -1, its remainder by 9 is -1 in \<open>int\<close>, and the \<open>uint\<close> \<open>field\<close> is 4294967295.  With
  \<open>g = 255\<close> the green draw succeeds whatever the random generator returns, and
  \<open>MakeField\<close> is called with that field type, which is not in \<open>[0, 8]\<close>.
\<close>

theorem ApplyFields_at_lower_cutoff:
  "\<exists>s1. ApplyFields e 15 255 b tile s
       = Inr (perform e (MakeField tile 0xFFFFFFFF INVALID_INDUSTRY) s1)
     \<and> world s1 = world s \<and> calls s1 = calls s @ [CallRandomRange 223]"
proof -
  obtain s1 where s1: "SampleQuantizedGradient e 255 1 15 240 s = Inr (1, s1)"
    "world s1 = world s" "calls s1 = calls s @ [CallRandomRange 223]"
    using gradient_full_green [of e s] by blast
  have "ApplyFields e 15 255 b tile s
      = Inr (perform e (MakeField tile 0xFFFFFFFF INVALID_INDUSTRY) s1)"
    using s1(1) field_at_cutoff
    by (simp add: ApplyFields_def LOWER_CUTOFF_def UPPER_CUTOFF_def and_then_def)
  then show ?thesis
    using s1(2,3) by blast
qed

section \<open>The water classifier\<close>

lemma Random_calls:
  "Random e s = (rnd, s1) \<Longrightarrow> calls s1 = calls s @ [CallRandom] \<and> world s1 = world s"
  by (auto simp add: Random_def split: prod.splits)

text \<open>
  C7.  On a tile with \<open>r \<ge> 240\<close> whose slope is not flat, \<open>ApplyWater\<close> makes no canal and no
  sea, and it makes a river exactly when \<open>g \<ge> 240\<close> and the slope is a half-tile slope.
  On a tile with \<open>r < 240\<close> and \<open>g \<ge> 240\<close> it makes a river whenever the slope is flat or a
  half-tile slope.
\<close>

theorem ApplyWater_slope_rules:
  "(UPPER_CUTOFF \<le> r \<and> GetTileSlope e (world s) tile \<noteq> SLOPE_FLAT \<longrightarrow>
      (\<exists>s'. ApplyWater e r g b tile s = Inr s'
         \<and> \<not> list_ex is_MakeCanal (new_calls s s')
         \<and> \<not> list_ex is_MakeSea (new_calls s s')
         \<and> (list_ex is_MakeRiver (new_calls s s') \<longleftrightarrow>
              UPPER_CUTOFF \<le> g \<and> IsHalftileSlope e (GetTileSlope e (world s) tile))))
   \<and> (r2 < UPPER_CUTOFF \<and> UPPER_CUTOFF \<le> g2
        \<and> (GetTileSlope e2 (world s2) tile2 = SLOPE_FLAT
            \<or> IsHalftileSlope e2 (GetTileSlope e2 (world s2) tile2)) \<longrightarrow>
      (\<exists>s'. ApplyWater e2 r2 g2 b2 tile2 s2 = Inr s' \<and> list_ex is_MakeRiver (new_calls s2 s')))"
proof (intro conjI impI)
  assume a: "UPPER_CUTOFF \<le> r \<and> GetTileSlope e (world s) tile \<noteq> SLOPE_FLAT"
  obtain rnd s1 where r: "Random e s = (rnd, s1)"
    by (cases "Random e s")
  show "\<exists>s'. ApplyWater e r g b tile s = Inr s'
         \<and> \<not> list_ex is_MakeCanal (new_calls s s')
         \<and> \<not> list_ex is_MakeSea (new_calls s s')
         \<and> (list_ex is_MakeRiver (new_calls s s') \<longleftrightarrow>
              UPPER_CUTOFF \<le> g \<and> IsHalftileSlope e (GetTileSlope e (world s) tile))"
  proof (cases "UPPER_CUTOFF \<le> g \<and> IsHalftileSlope e (GetTileSlope e (world s) tile)")
    case True
    have "ApplyWater e r g b tile s = Inr (perform e (MakeRiver tile rnd) s1)"
      using a True r by (simp add: ApplyWater_def Let_def)
    moreover have "new_calls s (perform e (MakeRiver tile rnd) s1) = [CallRandom, MakeRiver tile rnd]"
      using Random_calls [OF r] by (simp add: new_calls_def calls_perform)
    ultimately show ?thesis
      using True by simp
  next
    case False
    have "ApplyWater e r g b tile s = Inr s"
      using a False by (auto simp add: ApplyWater_def Let_def)
    moreover have "new_calls s s = []"
      by (simp add: new_calls_def)
    ultimately show ?thesis
      using False by simp
  qed
next
  assume b: "r2 < UPPER_CUTOFF \<and> UPPER_CUTOFF \<le> g2
        \<and> (GetTileSlope e2 (world s2) tile2 = SLOPE_FLAT
            \<or> IsHalftileSlope e2 (GetTileSlope e2 (world s2) tile2))"
  obtain rnd s1 where r: "Random e2 s2 = (rnd, s1)"
    by (cases "Random e2 s2")
  have "ApplyWater e2 r2 g2 b2 tile2 s2 = Inr (perform e2 (MakeRiver tile2 rnd) s1)"
    using b r by (auto simp add: ApplyWater_def Let_def)
  moreover have "new_calls s2 (perform e2 (MakeRiver tile2 rnd) s1)
      = [CallRandom, MakeRiver tile2 rnd]"
    using Random_calls [OF r] by (simp add: new_calls_def calls_perform)
  ultimately show "\<exists>s'. ApplyWater e2 r2 g2 b2 tile2 s2 = Inr s'
      \<and> list_ex is_MakeRiver (new_calls s2 s')"
    by simp
qed

theorem ApplyWater_slope_rules_witness:
  "UPPER_CUTOFF \<le> (255 :: byte)
   \<and> GetTileSlope test_env (world (test_state MP_CLEAR (SLOPE_OTHER 1))) 0 \<noteq> SLOPE_FLAT
   \<and> (\<exists>s'. ApplyWater test_env 255 255 0 0 (test_state MP_CLEAR (SLOPE_OTHER 1)) = Inr s'
         \<and> \<not> list_ex is_MakeCanal (new_calls (test_state MP_CLEAR (SLOPE_OTHER 1)) s')
         \<and> \<not> list_ex is_MakeSea (new_calls (test_state MP_CLEAR (SLOPE_OTHER 1)) s')
         \<and> list_ex is_MakeRiver (new_calls (test_state MP_CLEAR (SLOPE_OTHER 1)) s'))
   \<and> (0 :: byte) < UPPER_CUTOFF
   \<and> GetTileSlope test_env (world (test_state MP_CLEAR SLOPE_FLAT)) 0 = SLOPE_FLAT
   \<and> (\<exists>s'. ApplyWater test_env 0 255 0 0 (test_state MP_CLEAR SLOPE_FLAT) = Inr s'
         \<and> list_ex is_MakeRiver (new_calls (test_state MP_CLEAR SLOPE_FLAT) s'))"
  using ApplyWater_slope_rules [of 255 test_env "test_state MP_CLEAR (SLOPE_OTHER 1)" 0 255 0
      0 255 test_env "test_state MP_CLEAR SLOPE_FLAT" 0 0]
  by (simp add: UPPER_CUTOFF_def test_env_def test_state_def)

section \<open>The tree species lookup\<close>

lemmas tree_constants = TREE_TEMPERATE_def TREE_SUB_ARCTIC_def TREE_RAINFOREST_def
  TREE_CACTUS_def TREE_SUB_TROPICAL_def TREE_TOYLAND_def TREE_COUNT_TEMPERATE_def
  TREE_COUNT_SUB_ARCTIC_def TREE_COUNT_RAINFOREST_def TREE_COUNT_SUB_TROPICAL_def
  TREE_COUNT_TOYLAND_def

text \<open>In the three other climates the lookup pairs a base with the count of its own group.\<close>

lemma TreeTypeLookup_other_climates:
  assumes "16 \<le> val" and "landscape e \<noteq> LT_TROPIC"
  shows "TreeTypeLookup e val
    = species_base (landscape e) + (ucast (drop_bit 4 val) - 1) mod species_count (landscape e)"
  using assms by (cases "landscape e") (simp_all add: TreeTypeLookup_def not_less [symmetric])

text \<open>
  C5.  The claim fails on the code in the tropic climate.  There the lookup adds the base
  of the rainforest group to a remainder by the count of the sub-tropical group (4, not
  7).  For \<open>b = 0x50\<close> the code returns species 0x14, where the base and the count of the
  rainforest group give 0x18.
\<close>

theorem TreeTypeLookup_tropic_mismatch:
  "TreeTypeLookup (test_env\<lparr>landscape := LT_TROPIC\<rparr>) 0x50 = 0x14
   \<and> species_base LT_TROPIC + (ucast (drop_bit 4 (0x50 :: byte)) - 1) mod species_count LT_TROPIC
       = 0x18
   \<and> TREE_COUNT_SUB_TROPICAL = 4 \<and> TREE_COUNT_RAINFOREST = 7"
  by (simp add: TreeTypeLookup_def test_env_def tree_constants drop_bit_eq_div)

section \<open>The projection\<close>

declare for_loop.simps [simp del]

lemma unat_succ_below:
  fixes i bound :: uint
  assumes "i < bound"
  shows "unat (i + 1) = Suc (unat i)"
proof -
  have "unat i < unat bound"
    using assms by (simp add: word_less_nat_alt)
  moreover have "unat bound < 2 ^ 32"
    using unsigned_less [of bound, where ?'a = nat] by simp
  ultimately have "unat i + 1 < 2 ^ 32"
    by simp
  then show ?thesis
    by (simp add: unat_word_ariths)
qed

text \<open>The counting loop visits the cells from \<open>i\<close> up to \<open>bound\<close>, in order.\<close>

lemma for_loop_for_each: "for_loop i bound body s = for_each (cells_between i bound) body s"
proof (induction i bound body s rule: for_loop.induct)
  case (1 i bound body s)
  show ?case
  proof (cases "i < bound")
    case True
    then have lt: "unat i < unat bound"
      by (simp add: word_less_nat_alt)
    have "cells_between i bound = i # cells_between (i + 1) bound"
      using lt unat_succ_below [OF True]
      by (simp add: cells_between_def upt_conv_Cons)
    then show ?thesis
      using True 1 by (subst for_loop.simps) (simp split: sum.splits)
  next
    case False
    then have "\<not> unat i < unat bound"
      by (simp add: word_less_nat_alt)
    then have "cells_between i bound = []"
      by (simp add: cells_between_def)
    then show ?thesis
      using False by (subst for_loop.simps) simp
  qed
qed

text \<open>
  C3, as amended.  The projector visits the rows from the row padding up to the map height
  minus the row padding and, in each row, the columns from the column padding up to the map
  width minus the column padding.  For each visited cell the source row is
  \<open>(destRow - rowPadding) * base / scale\<close>; the source column is
  \<open>(mapWidth - 1 - destCol - colPadding) * base / scale\<close> in the counter-clockwise
  orientation, mirrored with the width of the map and not of the image, and
  \<open>(destCol - colPadding) * base / scale\<close> in the clockwise orientation.  The pixel at that
  row and column is the one handed to the classifier.
\<close>

theorem ApplyRasterToMap_nearest_neighbour:
  "ApplyRasterToMap e raster_width raster_height raster proc s =
     and_then
       (raster_projection (heightmap_rotation e) (MapSizeX e (world s)) (MapSizeY e (world s))
          raster_width raster_height)
       (\<lambda>pj.
          for_each (cells_between (map_row_pad pj) (map_height pj - map_row_pad pj))
            (\<lambda>dest_row.
               for_each (cells_between (map_col_pad pj) (map_width pj - map_col_pad pj))
                 (\<lambda>dest_col s1.
                    and_then (uint_div ((dest_row - map_row_pad pj) * num_div) (raster_scale pj))
                      (\<lambda>src_row.
                    and_then
                      (case heightmap_rotation e of
                         HM_COUNTER_CLOCKWISE \<Rightarrow>
                           uint_div ((map_width pj - 1 - dest_col - map_col_pad pj) * num_div)
                             (raster_scale pj)
                       | HM_CLOCKWISE \<Rightarrow>
                           uint_div ((dest_col - map_col_pad pj) * num_div) (raster_scale pj))
                      (\<lambda>src_col.
                         sample_tile e raster_width raster_height raster proc
                           (case heightmap_rotation e of
                              HM_COUNTER_CLOCKWISE \<Rightarrow> TileXY e dest_col dest_row
                            | HM_CLOCKWISE \<Rightarrow> TileXY e dest_row dest_col)
                           src_row src_col s1))))
            s)"
  unfolding ApplyRasterToMap_def for_loop_for_each visit_tile_def source_row_def source_col_def
    Let_def
  by (rule refl)

text \<open>
  A 2 by 2 image on the 4 by 4 map, counter-clockwise: the red pixel of the first image
  column lands on the map columns 2 and 3, the green pixel of the second on the map columns
  0 and 1.
\<close>

theorem ApplyRasterToMap_nearest_neighbour_witness:
  "ApplyRasterToMap test_env 2 2 [255, 0, 0, 0, 255, 0, 0, 0, 255, 0, 0, 0]
     (ApplyTropics test_env) (test_state MP_CLEAR SLOPE_FLAT)
   = Inr \<lparr>world = (MP_CLEAR, SLOPE_FLAT), random = (),
          calls =
            [SetTropicZone 0 TROPICZONE_RAINFOREST, SetTropicZone 1 TROPICZONE_RAINFOREST,
             SetTropicZone 2 TROPICZONE_DESERT, SetTropicZone 3 TROPICZONE_DESERT,
             SetTropicZone 4 TROPICZONE_RAINFOREST, SetTropicZone 5 TROPICZONE_RAINFOREST,
             SetTropicZone 6 TROPICZONE_DESERT, SetTropicZone 7 TROPICZONE_DESERT,
             SetTropicZone 10 TROPICZONE_NORMAL, SetTropicZone 11 TROPICZONE_NORMAL,
             SetTropicZone 14 TROPICZONE_NORMAL, SetTropicZone 15 TROPICZONE_NORMAL]\<rparr>"
proof -
  have pj: "raster_projection HM_COUNTER_CLOCKWISE 4 4 2 2
      = Inr \<lparr>map_width = 4, map_height = 4, map_row_pad = 0, map_col_pad = 0,
             raster_scale = 32768\<rparr>"
    by (simp add: raster_projection_def uint_div_def and_then_def num_div_def)
  have cells: "cells_between 0 4 = [0, 1, 2, 3]"
    by (simp add: cells_between_def upt_conv_Cons)
  show ?thesis
    unfolding ApplyRasterToMap_nearest_neighbour
    by (simp add: test_env_def test_state_def pj cells and_then_def uint_div_def num_div_def
        sample_tile_def read_byte_def ApplyTropics_def UPPER_CUTOFF_def perform_def)
qed

text \<open>
  The claim as worded fails for a 32 by 32 image on a 64 by 64 map, counter-clockwise, at
  the first visited column: the code samples image column 31, the mirror with the image
  width gives 15.
\<close>

theorem claimed_source_col_counterexample:
  "raster_projection HM_COUNTER_CLOCKWISE 64 64 32 32
     = Inr \<lparr>map_width = 64, map_height = 64, map_row_pad = 0, map_col_pad = 0,
            raster_scale = 32768\<rparr>
   \<and> cells_between 0 (64 - 0) ! 0 = 0
   \<and> source_col HM_COUNTER_CLOCKWISE
       \<lparr>map_width = 64, map_height = 64, map_row_pad = 0, map_col_pad = 0,
        raster_scale = 32768\<rparr> 0 = Inr 31
   \<and> claimed_source_col HM_COUNTER_CLOCKWISE 32
       \<lparr>map_width = 64, map_height = 64, map_row_pad = 0, map_col_pad = 0,
        raster_scale = 32768\<rparr> 0 = Inr 15
   \<and> source_col HM_COUNTER_CLOCKWISE
       \<lparr>map_width = 64, map_height = 64, map_row_pad = 0, map_col_pad = 0,
        raster_scale = 32768\<rparr> 0
     \<noteq> claimed_source_col HM_COUNTER_CLOCKWISE 32
       \<lparr>map_width = 64, map_height = 64, map_row_pad = 0, map_col_pad = 0,
        raster_scale = 32768\<rparr> 0"
  by (simp add: raster_projection_def uint_div_def and_then_def num_div_def source_col_def
      claimed_source_col_def cells_between_def upt_conv_Cons)

text \<open>
  C2.  The claim fails on the code for an image of 50000 by 2000 pixels, which passes
  \<open>IsValidRasterDimension\<close>, on a 64 by 64 map in the counter-clockwise orientation.  The
  scale \<open>64 * 16384 / 50000\<close> is truncated to 20, and at the first visited cell (row 31,
  column 0) the source column is \<open>63 * 16384 / 20 = 51609\<close>, which is not below the image
  width: the second assertion fails, whatever the pixels and the classifier.
\<close>

theorem ApplyRasterToMap_assertion_fails:
  "IsValidRasterDimension 50000 2000 \<and>
   ApplyRasterToMap
     (e\<lparr>heightmap_rotation := HM_COUNTER_CLOCKWISE, MapSizeX := \<lambda>w. 64, MapSizeY := \<lambda>w. 64\<rparr>)
     50000 2000 raster proc s = Inl AssertionFailed"
proof -
  have pj: "raster_projection HM_COUNTER_CLOCKWISE 64 64 50000 2000
      = Inr \<lparr>map_width = 64, map_height = 64, map_row_pad = 31, map_col_pad = 0,
             raster_scale = 20\<rparr>"
    by (simp add: raster_projection_def uint_div_def and_then_def num_div_def)
  have cells: "cells_between 31 33 = 31 # cells_between 32 33"
    "cells_between 0 64 = 0 # cells_between 1 64"
    by (simp_all add: cells_between_def upt_conv_Cons)
  have "ApplyRasterToMap
     (e\<lparr>heightmap_rotation := HM_COUNTER_CLOCKWISE, MapSizeX := \<lambda>w. 64, MapSizeY := \<lambda>w. 64\<rparr>)
     50000 2000 raster proc s = Inl AssertionFailed"
    unfolding ApplyRasterToMap_def for_loop_for_each visit_tile_def source_row_def
      source_col_def Let_def
    by (simp add: pj and_then_def cells uint_div_def num_div_def sample_tile_def)
  moreover have "IsValidRasterDimension 50000 2000"
    by (simp add: IsValidRasterDimension_def MAX_RASTER_SIZE_PIXELS_def
        MAX_RASTER_SIDE_LENGTH_IN_PIXELS_def)
  ultimately show ?thesis
    by simp
qed

section \<open>A failed read\<close>

text \<open>A read that fails shows one error message and does nothing else.\<close>

lemma ReadRasterFile_failure:
  assumes "ReadRasterFile e dft filename subdir want_raster s = Inr (None, s1)"
  shows "\<exists>a b. s1 = emit (ShowErrorMessage a b WL_ERROR) s"
  using assms
  by (auto simp add: ReadRasterFile_def ReadRasterPNG_def ReadRasterBMP_def Let_def
      split: DetailedFileType.splits option.splits if_splits)

text \<open>
  C8.  When \<open>ReadRasterFile\<close> returns false, \<open>LoadRaster\<close> returns after the release of
  its buffer pointer: the grid and the random generator are as they were before the
  call, the calls made are the error message of the reader and the \<open>free\<close>, in that order,
  none of them is a tile mutation and none is \<open>MarkWholeScreenDirty\<close>.  No reader stores a
  buffer before it fails, so the pointer released is still \<open>nullptr\<close>.
\<close>

theorem LoadRaster_read_failure:
  assumes "ReadRasterFile e dft filename subdir True s = Inr (None, s1)"
  shows "LoadRaster e dft rdt filename subdir s = Inr (emit (Free None) s1)
    \<and> world (emit (Free None) s1) = world s
    \<and> random (emit (Free None) s1) = random s
    \<and> (\<exists>a b. new_calls s (emit (Free None) s1) = [ShowErrorMessage a b WL_ERROR, Free None])
    \<and> \<not> list_ex is_tile_mutation (new_calls s (emit (Free None) s1))
    \<and> MarkWholeScreenDirty \<notin> set (new_calls s (emit (Free None) s1))"
proof -
  obtain a b where s1: "s1 = emit (ShowErrorMessage a b WL_ERROR) s"
    using ReadRasterFile_failure [OF assms] by blast
  have "LoadRaster e dft rdt filename subdir s = Inr (emit (Free None) s1)"
    using assms by (simp add: LoadRaster_def and_then_def)
  moreover have "new_calls s (emit (Free None) s1) = [ShowErrorMessage a b WL_ERROR, Free None]"
    by (simp add: s1 emit_def new_calls_def)
  moreover have "world (emit (Free None) s1) = world s" "random (emit (Free None) s1) = random s"
    by (simp_all add: s1 emit_def)
  ultimately show ?thesis
    by simp
qed

theorem LoadRaster_read_failure_witness:
  "ReadRasterFile test_env DFT_HEIGHTMAP_PNG ''map.png'' GEOMAP_DIR True
       (test_state MP_CLEAR SLOPE_FLAT)
     = Inr (None, emit (ShowErrorMessage STR_ERROR_PNGMAP STR_ERROR_PNGMAP_FILE_NOT_FOUND WL_ERROR)
         (test_state MP_CLEAR SLOPE_FLAT))
   \<and> LoadRaster test_env DFT_HEIGHTMAP_PNG RDT_TERRAIN ''map.png'' GEOMAP_DIR
         (test_state MP_CLEAR SLOPE_FLAT)
     = Inr \<lparr>world = (MP_CLEAR, SLOPE_FLAT), random = (),
            calls = [ShowErrorMessage STR_ERROR_PNGMAP STR_ERROR_PNGMAP_FILE_NOT_FOUND WL_ERROR,
                     Free None]\<rparr>"
proof -
  have r: "ReadRasterFile test_env DFT_HEIGHTMAP_PNG ''map.png'' GEOMAP_DIR True
       (test_state MP_CLEAR SLOPE_FLAT)
     = Inr (None, emit (ShowErrorMessage STR_ERROR_PNGMAP STR_ERROR_PNGMAP_FILE_NOT_FOUND WL_ERROR)
         (test_state MP_CLEAR SLOPE_FLAT))"
    by (simp add: ReadRasterFile_def test_env_def)
  show ?thesis
    using r LoadRaster_read_failure [OF r, of RDT_TERRAIN]
    by (simp add: emit_def test_state_def)
qed

end
